theory Spec2Isabelle
  imports Main
begin

section \<open>Data model: pointers, guard objects, the two slots per payload type\<close>

text \<open>
  A pointer \<open>T*\<close> is \<open>addr option\<close>: \<open>None\<close> is \<open>nullptr\<close>, \<open>Some a\<close> points at the
  payload member of the guard object that lives at address \<open>a\<close>.
\<close>

type_synonym addr = nat

text \<open>
  \<open>class guard\<close>: the members \<open>T _data\<close> and \<open>T* _prev\<close> (an Isabelle name cannot
  start with an underscore, hence the prefix).
\<close>

record 'v guard =
  g_data :: 'v
  g_prev :: "addr option"

text \<open>
  The program state. \<open>global_top_ptr<T>\<close> is one variable per payload type \<open>T\<close>;
  \<open>local_top_ptr<T>\<close> is \<open>thread_local\<close>, one variable per thread and payload type.
  Both start as \<open>nullptr\<close>. \<open>objs\<close> is the store of the guard objects that are alive.
\<close>

record ('ty, 'tid, 'v) state =
  global_top_ptr :: "'ty \<Rightarrow> addr option"
  local_top_ptr :: "'tid \<Rightarrow> 'ty \<Rightarrow> addr option"
  objs :: "addr \<Rightarrow> 'v guard option"

definition init_state :: "('ty, 'tid, 'v) state" where
  "init_state = \<lparr> global_top_ptr = (\<lambda>T. None), local_top_ptr = (\<lambda>tid T. None),
                  objs = (\<lambda>a. None) \<rparr>"

text \<open>
  \<open>(TLocal ? local_top_ptr<T> : global_top_ptr<T>)\<close>, evaluated on thread \<open>tid\<close>: read
  and write through the reference.
\<close>

definition ptr_ref :: "bool \<Rightarrow> 'ty \<Rightarrow> 'tid \<Rightarrow> ('ty, 'tid, 'v) state \<Rightarrow> addr option" where
  "ptr_ref TLocal T tid s = (if TLocal then local_top_ptr s tid T else global_top_ptr s T)"

definition set_ptr_ref ::
  "bool \<Rightarrow> 'ty \<Rightarrow> 'tid \<Rightarrow> addr option \<Rightarrow> ('ty, 'tid, 'v) state \<Rightarrow> ('ty, 'tid, 'v) state" where
  "set_ptr_ref TLocal T tid p s =
     (if TLocal
      then s\<lparr> local_top_ptr := (local_top_ptr s)(tid := (local_top_ptr s tid)(T := p)) \<rparr>
      else s\<lparr> global_top_ptr := (global_top_ptr s)(T := p) \<rparr>)"

section \<open>The guard\<close>

text \<open>
  The constructor of \<open>guard<T, TLocal>\<close>, run on thread \<open>tid\<close> for the object at
  address \<open>this\<close>. The member initialiser \<open>_data{xs...}\<close> runs first; \<open>mk T xs\<close> is the
  payload type's own constructor, which may throw (\<open>Inl\<close>). Only then the body runs:
  \<open>_prev = ptr_ref; ptr_ref = &_data\<close>.
\<close>

definition guard_ctor ::
  "('ty \<Rightarrow> 'a \<Rightarrow> 'e + 'v) \<Rightarrow> bool \<Rightarrow> 'ty \<Rightarrow> 'tid \<Rightarrow> addr \<Rightarrow> 'a \<Rightarrow> ('ty, 'tid, 'v) state
     \<Rightarrow> ('e + unit) \<times> ('ty, 'tid, 'v) state" where
  "guard_ctor mk TLocal T tid this xs s =
     (case mk T xs of
        Inl e \<Rightarrow> (Inl e, s)
      | Inr d \<Rightarrow>
          (let prev = ptr_ref TLocal T tid s;
               s1 = s\<lparr> objs := (objs s)(this := Some \<lparr> g_data = d, g_prev = prev \<rparr>) \<rparr>
           in (Inr (), set_ptr_ref TLocal T tid (Some this) s1)))"

text \<open>
  The destructor: \<open>(TLocal ? local_top_ptr<T> : global_top_ptr<T>) = _prev\<close>, after
  which the object is gone. A destructor runs on a live object only; \<open>None\<close> stands for
  a call on an address that holds no guard, which the language does not allow.
\<close>

definition guard_dtor ::
  "bool \<Rightarrow> 'ty \<Rightarrow> 'tid \<Rightarrow> addr \<Rightarrow> ('ty, 'tid, 'v) state \<Rightarrow> ('ty, 'tid, 'v) state option" where
  "guard_dtor TLocal T tid this s =
     (case objs s this of
        None \<Rightarrow> None
      | Some g \<Rightarrow> Some (set_ptr_ref TLocal T tid (g_prev g) (s\<lparr> objs := (objs s)(this := None) \<rparr>)))"

section \<open>The accessors\<close>

text \<open>
  What a call does: it returns, it halts the process in \<open>abort_if\<close> (with the message
  that is printed), or it has undefined behaviour (a null or dangling dereference).
\<close>

datatype 'a outcome = Returned 'a | Aborted string | Undefined

definition abort_if :: "bool \<Rightarrow> string \<Rightarrow> unit outcome" where
  "abort_if predicate msg = (if \<not> predicate then Returned () else Aborted msg)"

text \<open>The \<open>#ifdef TLCONTEXT_DEBUG\<close> around each call of \<open>abort_if\<close>.\<close>

definition debug_abort_if :: "bool \<Rightarrow> bool \<Rightarrow> string \<Rightarrow> unit outcome" where
  "debug_abort_if TLCONTEXT_DEBUG predicate msg =
     (if TLCONTEXT_DEBUG then abort_if predicate msg else Returned ())"

text \<open>\<open>return *ptr\<close>: the reference returned is the address; a null pointer is undefined.\<close>

definition deref :: "addr option \<Rightarrow> addr outcome" where
  "deref ptr = (case ptr of None \<Rightarrow> Undefined | Some a \<Rightarrow> Returned a)"

definition and_then :: "unit outcome \<Rightarrow> 'a outcome \<Rightarrow> 'a outcome" where
  "and_then c k = (case c of Returned u \<Rightarrow> k | Aborted m \<Rightarrow> Aborted m | Undefined \<Rightarrow> Undefined)"

definition get_local :: "bool \<Rightarrow> 'tid \<Rightarrow> 'ty \<Rightarrow> ('ty, 'tid, 'v) state \<Rightarrow> addr outcome" where
  "get_local TLCONTEXT_DEBUG tid T s =
     (let ptr = local_top_ptr s tid T
      in and_then (debug_abort_if TLCONTEXT_DEBUG (ptr = None) ''tried using inactive local context'')
           (deref ptr))"

definition get_global :: "bool \<Rightarrow> 'tid \<Rightarrow> 'ty \<Rightarrow> ('ty, 'tid, 'v) state \<Rightarrow> addr outcome" where
  "get_global TLCONTEXT_DEBUG tid T s =
     (let ptr = global_top_ptr s T
      in and_then (debug_abort_if TLCONTEXT_DEBUG (ptr = None) ''tried using inactive global context'')
           (deref ptr))"

definition get_top :: "bool \<Rightarrow> 'tid \<Rightarrow> 'ty \<Rightarrow> ('ty, 'tid, 'v) state \<Rightarrow> addr outcome" where
  "get_top TLCONTEXT_DEBUG tid T s =
     (case local_top_ptr s tid T of
        Some local_ptr \<Rightarrow> Returned local_ptr
      | None \<Rightarrow>
          (let global_ptr = global_top_ptr s T
           in and_then (debug_abort_if TLCONTEXT_DEBUG (global_ptr = None) ''no available context'')
                (deref global_ptr)))"

text \<open>
  Reading the payload through the reference an accessor returned (as in
  \<open>int_ctx::get_top().value\<close>): the payload of the guard object at that address; a
  reference to an object that is gone is undefined.
\<close>

definition payload :: "('ty, 'tid, 'v) state \<Rightarrow> addr outcome \<Rightarrow> 'v outcome" where
  "payload s r =
     (case r of
        Returned a \<Rightarrow> (case objs s a of None \<Rightarrow> Undefined | Some g \<Rightarrow> Returned (g_data g))
      | Aborted m \<Rightarrow> Aborted m
      | Undefined \<Rightarrow> Undefined)"

section \<open>Executions: sequences of guard constructions and destructions\<close>

text \<open>
  A slot is one pointer variable: the process-wide one of a payload type, or the one of
  a thread and a payload type.
\<close>

datatype ('ty, 'tid) slot = GlobalSlot 'ty | LocalSlot 'tid 'ty

definition slot_of :: "bool \<Rightarrow> 'ty \<Rightarrow> 'tid \<Rightarrow> ('ty, 'tid) slot" where
  "slot_of TLocal T tid = (if TLocal then LocalSlot tid T else GlobalSlot T)"

fun slot_ptr :: "('ty, 'tid, 'v) state \<Rightarrow> ('ty, 'tid) slot \<Rightarrow> addr option" where
  "slot_ptr s (GlobalSlot T) = global_top_ptr s T"
| "slot_ptr s (LocalSlot tid T) = local_top_ptr s tid T"

text \<open>
  An event is what a thread does to a guard: \<open>Construct TLocal T tid a xs\<close> constructs a
  \<open>guard<T, TLocal>\<close> at address \<open>a\<close> from the arguments \<open>xs\<close> on thread \<open>tid\<close>, and
  \<open>Destroy TLocal T tid a\<close> ends the lifetime of the guard at \<open>a\<close>.
\<close>

datatype ('ty, 'tid, 'a) event =
  Construct bool 'ty 'tid addr 'a
| Destroy bool 'ty 'tid addr

text \<open>
  The state of an execution: the program state, and for every slot the addresses of
  the guards constructed on it and not yet destroyed, the most recent first. The list
  is bookkeeping about the execution; the program does not read it.
\<close>

record ('ty, 'tid, 'v) sys =
  st :: "('ty, 'tid, 'v) state"
  live :: "('ty, 'tid) slot \<Rightarrow> addr list"

definition init_sys :: "('ty, 'tid, 'v) sys" where
  "init_sys = \<lparr> st = init_state, live = (\<lambda>k. []) \<rparr>"

text \<open>
  One event of a well-nested execution. A guard is constructed at an address no live
  guard occupies; a constructor that throws leaves no guard behind. A guard is destroyed
  only when it is the most recent live guard of its slot (the LIFO discipline). \<open>None\<close>
  marks a sequence that is not such an execution.
\<close>

definition step ::
  "('ty \<Rightarrow> 'a \<Rightarrow> 'e + 'v) \<Rightarrow> ('ty, 'tid, 'a) event \<Rightarrow> ('ty, 'tid, 'v) sys \<Rightarrow> ('ty, 'tid, 'v) sys option" where
  "step mk ev w =
     (case ev of
        Construct TLocal T tid a xs \<Rightarrow>
          (if objs (st w) a \<noteq> None then None
           else (case guard_ctor mk TLocal T tid a xs (st w) of
                   (Inl e, s') \<Rightarrow> Some (w\<lparr> st := s' \<rparr>)
                 | (Inr u, s') \<Rightarrow>
                     Some \<lparr> st = s',
                            live = (live w)(slot_of TLocal T tid := a # live w (slot_of TLocal T tid)) \<rparr>))
      | Destroy TLocal T tid a \<Rightarrow>
          (case live w (slot_of TLocal T tid) of
             [] \<Rightarrow> None
           | b # rest \<Rightarrow>
               (if b \<noteq> a then None
                else (case guard_dtor TLocal T tid a (st w) of
                        None \<Rightarrow> None
                      | Some s' \<Rightarrow> Some \<lparr> st = s', live = (live w)(slot_of TLocal T tid := rest) \<rparr>))))"

fun run ::
  "('ty \<Rightarrow> 'a \<Rightarrow> 'e + 'v) \<Rightarrow> ('ty, 'tid, 'a) event list \<Rightarrow> ('ty, 'tid, 'v) sys \<Rightarrow> ('ty, 'tid, 'v) sys option" where
  "run mk [] w = Some w"
| "run mk (ev # evs) w = (case step mk ev w of None \<Rightarrow> None | Some w' \<Rightarrow> run mk evs w')"

text \<open>
  The payload type of the demonstration program: \<open>int_ctx_data\<close> is built from one
  \<open>int\<close> and its constructor does not throw.
\<close>

definition int_ctx_data :: "'ty \<Rightarrow> int \<Rightarrow> string + int" where
  "int_ctx_data T x = Inr x"

text \<open>
  None of the demonstration's payload constructors throws. This one, used as an example
  of one that does, rejects a negative argument.
\<close>

definition checked_ctx_data :: "'ty \<Rightarrow> int \<Rightarrow> string + int" where
  "checked_ctx_data T x = (if x < 0 then Inl ''negative'' else Inr x)"

text \<open>
  The payload types of the demonstration program (\<open>int_ctx_data\<close>,
  \<open>metrics_ctx_data\<close>, \<open>pmr_context_data\<close>), naming the instantiations of the
  templates.
\<close>

datatype ctx = Int_ctx | Metrics_ctx | Pmr_ctx

section \<open>Well-formed executions\<close>

text \<open>
  The guards of one slot form a linked stack through \<open>_prev\<close>: starting from the
  pointer \<open>p\<close>, the live guards are met in the order of the list, and the last
  \<open>_prev\<close> is \<open>nullptr\<close>.
\<close>

fun chain :: "(addr \<Rightarrow> 'v guard option) \<Rightarrow> addr option \<Rightarrow> addr list \<Rightarrow> bool" where
  "chain ob p [] = (p = None)"
| "chain ob p (a # as) =
     (p = Some a \<and> (case ob a of None \<Rightarrow> False | Some g \<Rightarrow> chain ob (g_prev g) as))"

text \<open>
  The invariant of well-nested executions: every slot points at the head of the chain
  of its live guards, and no address is the address of two live guards.
\<close>

definition wf :: "('ty, 'tid, 'v) sys \<Rightarrow> bool" where
  "wf w =
     ((\<forall>k. chain (objs (st w)) (slot_ptr (st w) k) (live w k)) \<and>
      (\<forall>k. distinct (live w k)) \<and>
      (\<forall>k k'. k = k' \<or> set (live w k) \<inter> set (live w k') = {}))"

text \<open>The addresses of the guards a sequence of events destroys.\<close>

fun destroyed_addrs :: "('ty, 'tid, 'a) event list \<Rightarrow> addr list" where
  "destroyed_addrs [] = []"
| "destroyed_addrs (Construct TLocal T tid a xs # evs) = destroyed_addrs evs"
| "destroyed_addrs (Destroy TLocal T tid a # evs) = a # destroyed_addrs evs"

text \<open>The parts of an event: the payload type, the thread, the address, the scope.\<close>

fun event_type :: "('ty, 'tid, 'a) event \<Rightarrow> 'ty" where
  "event_type (Construct TLocal T tid a xs) = T"
| "event_type (Destroy TLocal T tid a) = T"

fun event_thread :: "('ty, 'tid, 'a) event \<Rightarrow> 'tid" where
  "event_thread (Construct TLocal T tid a xs) = tid"
| "event_thread (Destroy TLocal T tid a) = tid"

fun event_addr :: "('ty, 'tid, 'a) event \<Rightarrow> addr" where
  "event_addr (Construct TLocal T tid a xs) = a"
| "event_addr (Destroy TLocal T tid a) = a"

fun event_local :: "('ty, 'tid, 'a) event \<Rightarrow> bool" where
  "event_local (Construct TLocal T tid a xs) = TLocal"
| "event_local (Destroy TLocal T tid a) = TLocal"

section \<open>Basic facts about the slots\<close>

lemma ptr_ref_slot: "ptr_ref TLocal T tid s = slot_ptr s (slot_of TLocal T tid)"
  by (simp add: ptr_ref_def slot_of_def)

lemma slot_ptr_set_ptr_ref:
  "slot_ptr (set_ptr_ref TLocal T tid p s) k = (if k = slot_of TLocal T tid then p else slot_ptr s k)"
  by (cases k) (auto simp: set_ptr_ref_def slot_of_def)

lemma objs_set_ptr_ref: "objs (set_ptr_ref TLocal T tid p s) = objs s"
  by (simp add: set_ptr_ref_def)

lemma slot_ptr_objs_update: "slot_ptr (s\<lparr> objs := f \<rparr>) k = slot_ptr s k"
  by (cases k) simp_all

section \<open>The invariant of well-nested executions\<close>

lemma chain_fresh: "a \<notin> set as \<Longrightarrow> chain (ob(a := x)) p as = chain ob p as"
  by (induction as arbitrary: p) (auto split: option.splits)

lemma chain_live: "chain ob p as \<Longrightarrow> b \<in> set as \<Longrightarrow> ob b \<noteq> None"
  by (induction as arbitrary: p) (auto split: option.splits)

lemma chain_head: "chain ob p as \<Longrightarrow> p = (case as of [] \<Rightarrow> None | a # _ \<Rightarrow> Some a)"
  by (cases as) auto

lemma slot_ptr_init: "slot_ptr init_state k = None"
  by (cases k) (simp_all add: init_state_def)

lemma wf_init: "wf init_sys"
  by (simp add: wf_def init_sys_def slot_ptr_init)

lemma wf_fresh: "wf w \<Longrightarrow> objs (st w) a = None \<Longrightarrow> a \<notin> set (live w k)"
  unfolding wf_def using chain_live by fastforce

lemma wf_construct:
  assumes "wf w" and "objs (st w) a = None" and "mk T xs = Inr d"
  shows "wf \<lparr> st = snd (guard_ctor mk TLocal T tid a xs (st w)),
              live = (live w)(slot_of TLocal T tid := a # live w (slot_of TLocal T tid)) \<rparr>"
proof -
  let ?k = "slot_of TLocal T tid"
  let ?w' = "\<lparr> st = snd (guard_ctor mk TLocal T tid a xs (st w)),
              live = (live w)(?k := a # live w ?k) \<rparr>"
  have fresh: "\<And>k. a \<notin> set (live w k)" using assms(1,2) by (rule wf_fresh)
  from assms(1) have chs: "\<And>k. chain (objs (st w)) (slot_ptr (st w) k) (live w k)"
    and dis: "\<And>k. distinct (live w k)"
    and djs: "\<And>k k'. k = k' \<or> set (live w k) \<inter> set (live w k') = {}"
    by (auto simp: wf_def)
  show ?thesis
    unfolding wf_def
  proof (intro conjI allI)
    fix k
    show "chain (objs (st ?w')) (slot_ptr (st ?w') k) (live ?w' k)"
      using chs[of k] fresh[of k] assms(3)
      by (auto simp: guard_ctor_def Let_def slot_ptr_set_ptr_ref objs_set_ptr_ref
          slot_ptr_objs_update chain_fresh ptr_ref_slot)
  next
    fix k
    show "distinct (live ?w' k)" using dis[of k] fresh[of k] by auto
  next
    fix k k'
    show "k = k' \<or> set (live ?w' k) \<inter> set (live ?w' k') = {}"
      using djs[of k k'] fresh[of k] fresh[of k'] by auto
  qed
qed

lemma wf_destroy:
  assumes "wf w" and "live w (slot_of TLocal T tid) = a # rest"
    and "guard_dtor TLocal T tid a (st w) = Some s'"
  shows "wf \<lparr> st = s', live = (live w)(slot_of TLocal T tid := rest) \<rparr>"
proof -
  let ?k = "slot_of TLocal T tid"
  from assms(1) have ch: "chain (objs (st w)) (slot_ptr (st w) ?k) (live w ?k)"
    and di: "distinct (live w ?k)"
    and dj: "\<And>k'. ?k = k' \<or> set (live w ?k) \<inter> set (live w k') = {}"
    and chs: "\<And>k. chain (objs (st w)) (slot_ptr (st w) k) (live w k)"
    and dis: "\<And>k. distinct (live w k)"
    and djs: "\<And>k k'. k = k' \<or> set (live w k) \<inter> set (live w k') = {}"
    by (auto simp: wf_def)
  from ch assms(2) obtain g where g: "objs (st w) a = Some g" and cr: "chain (objs (st w)) (g_prev g) rest"
    by (auto split: option.splits)
  from assms(3) g have s': "s' = set_ptr_ref TLocal T tid (g_prev g) ((st w)\<lparr> objs := (objs (st w))(a := None) \<rparr>)"
    by (simp add: guard_dtor_def)
  have a_rest: "a \<notin> set rest" using di assms(2) by simp
  have a_other: "\<And>k'. k' \<noteq> ?k \<Longrightarrow> a \<notin> set (live w k')"
    using dj assms(2) by (metis disjoint_iff list.set_intros(1))
  have rest_sub: "set rest \<subseteq> set (live w ?k)" using assms(2) by auto
  show ?thesis
    unfolding wf_def
  proof (intro conjI allI)
    fix k
    show "chain (objs (st \<lparr>st = s', live = (live w)(?k := rest)\<rparr>))
         (slot_ptr (st \<lparr>st = s', live = (live w)(?k := rest)\<rparr>) k)
         (live \<lparr>st = s', live = (live w)(?k := rest)\<rparr> k)"
      using cr a_rest a_other[of k] chs[of k]
      by (simp add: s' slot_ptr_set_ptr_ref objs_set_ptr_ref slot_ptr_objs_update chain_fresh)
  next
    fix k
    show "distinct (live \<lparr>st = s', live = (live w)(?k := rest)\<rparr> k)"
      using dis[of k] di assms(2) by simp
  next
    fix k k'
    show "k = k' \<or> set (live \<lparr>st = s', live = (live w)(?k := rest)\<rparr> k) \<inter>
          set (live \<lparr>st = s', live = (live w)(?k := rest)\<rparr> k') = {}"
      using djs[of k k'] rest_sub by auto
  qed
qed

lemma wf_step: "wf w \<Longrightarrow> step mk ev w = Some w' \<Longrightarrow> wf w'"
proof (cases ev)
  case (Construct TLocal T tid a xs)
  assume w: "wf w" and s: "step mk ev w = Some w'"
  show ?thesis
  proof (cases "mk T xs")
    case (Inl e)
    with s Construct have "w' = w"
      by (auto simp: step_def guard_ctor_def split: if_splits)
    with w show ?thesis by simp
  next
    case (Inr d)
    from s Construct have fr: "objs (st w) a = None"
      by (auto simp: step_def split: if_splits)
    from s Construct Inr fr have "w' = \<lparr> st = snd (guard_ctor mk TLocal T tid a xs (st w)),
              live = (live w)(slot_of TLocal T tid := a # live w (slot_of TLocal T tid)) \<rparr>"
      by (auto simp: step_def guard_ctor_def Let_def)
    with wf_construct[of w a mk T xs d TLocal tid, OF w fr Inr] show ?thesis by simp
  qed
next
  case (Destroy TLocal T tid a)
  assume w: "wf w" and s: "step mk ev w = Some w'"
  from s Destroy obtain rest s' where "live w (slot_of TLocal T tid) = a # rest"
    and "guard_dtor TLocal T tid a (st w) = Some s'"
    and "w' = \<lparr> st = s', live = (live w)(slot_of TLocal T tid := rest) \<rparr>"
    by (auto simp: step_def split: list.splits if_splits option.splits)
  with wf_destroy[OF w] show ?thesis by simp
qed

lemma wf_run: "wf w \<Longrightarrow> run mk evs w = Some w' \<Longrightarrow> wf w'"
  by (induction evs arbitrary: w) (auto split: option.splits dest: wf_step)

lemma wf_slot_head:
  "wf w \<Longrightarrow> slot_ptr (st w) k = (case live w k of [] \<Rightarrow> None | a # as \<Rightarrow> Some a)"
  unfolding wf_def using chain_head by blast

lemma wf_head_alive:
  "wf w \<Longrightarrow> live w k = a # as \<Longrightarrow> \<exists>g. objs (st w) a = Some g"
  using wf_fresh[of w a k] by (cases "objs (st w) a") auto

lemma step_objs_kept:
  assumes "step mk ev w = Some w'" and "objs (st w) b = Some g"
    and "b \<notin> set (destroyed_addrs [ev])"
  shows "objs (st w') b = Some g"
proof (cases ev)
  case (Construct TLocal T tid a xs)
  with assms show ?thesis
    by (auto simp: step_def guard_ctor_def Let_def objs_set_ptr_ref
        split: if_splits sum.splits)
next
  case (Destroy TLocal T tid a)
  with assms show ?thesis
    by (auto simp: step_def guard_dtor_def objs_set_ptr_ref
        split: list.splits if_splits option.splits)
qed

lemma destroyed_addrs_Cons:
  "set (destroyed_addrs (ev # evs)) = set (destroyed_addrs [ev]) \<union> set (destroyed_addrs evs)"
  by (cases ev) auto

lemma run_objs_kept:
  "run mk evs w = Some w' \<Longrightarrow> objs (st w) b = Some g \<Longrightarrow> b \<notin> set (destroyed_addrs evs)
   \<Longrightarrow> objs (st w') b = Some g"
proof (induction evs arbitrary: w)
  case Nil
  then show ?case by simp
next
  case (Cons ev evs)
  from Cons.prems(1) obtain w1 where s: "step mk ev w = Some w1" and r: "run mk evs w1 = Some w'"
    by (auto split: option.splits)
  from Cons.prems(3) have n1: "b \<notin> set (destroyed_addrs [ev])" and n2: "b \<notin> set (destroyed_addrs evs)"
    by (simp_all add: destroyed_addrs_Cons[of ev evs])
  from step_objs_kept[OF s Cons.prems(2) n1] have "objs (st w1) b = Some g" .
  from Cons.IH[OF r this n2] show ?case .
qed

lemma scope_slots:
  assumes "wf w1" and "run mk evs w1 = Some w2" and "live w2 = live w1"
  shows "slot_ptr (st w2) k = slot_ptr (st w1) k"
proof -
  have "wf w2" using assms(1,2) by (rule wf_run)
  then show ?thesis using assms(1,3) by (simp add: wf_slot_head)
qed

lemma slot_ptr_eq_ptrs:
  "(\<forall>k. slot_ptr s' k = slot_ptr s k) \<longleftrightarrow>
   (global_top_ptr s' = global_top_ptr s \<and> local_top_ptr s' = local_top_ptr s)"
proof
  assume h: "\<forall>k. slot_ptr s' k = slot_ptr s k"
  have "\<And>T. global_top_ptr s' T = global_top_ptr s T" using h[rule_format, of "GlobalSlot _"] by simp
  moreover have "\<And>tid T. local_top_ptr s' tid T = local_top_ptr s tid T"
    using h[rule_format, of "LocalSlot _ _"] by simp
  ultimately show "global_top_ptr s' = global_top_ptr s \<and> local_top_ptr s' = local_top_ptr s"
    by (intro conjI ext)
next
  assume h: "global_top_ptr s' = global_top_ptr s \<and> local_top_ptr s' = local_top_ptr s"
  show "\<forall>k. slot_ptr s' k = slot_ptr s k"
  proof
    fix k show "slot_ptr s' k = slot_ptr s k" using h by (cases k) simp_all
  qed
qed

lemmas exec_defs = step_def guard_ctor_def guard_dtor_def set_ptr_ref_def ptr_ref_def slot_of_def
  init_sys_def init_state_def int_ctx_data_def checked_ctx_data_def Let_def

section \<open>The accessors in terms of the slot pointers\<close>

lemma get_local_ptr:
  "get_local dbg tid T s =
     (case local_top_ptr s tid T of
        None \<Rightarrow> (if dbg then Aborted ''tried using inactive local context'' else Undefined)
      | Some a \<Rightarrow> Returned a)"
  by (simp add: get_local_def Let_def and_then_def debug_abort_if_def abort_if_def deref_def
      split: option.splits)

lemma get_global_ptr:
  "get_global dbg tid T s =
     (case global_top_ptr s T of
        None \<Rightarrow> (if dbg then Aborted ''tried using inactive global context'' else Undefined)
      | Some a \<Rightarrow> Returned a)"
  by (simp add: get_global_def Let_def and_then_def debug_abort_if_def abort_if_def deref_def
      split: option.splits)

lemma get_top_ptr:
  "get_top dbg tid T s =
     (case local_top_ptr s tid T of
        Some a \<Rightarrow> Returned a
      | None \<Rightarrow>
          (case global_top_ptr s T of
             None \<Rightarrow> (if dbg then Aborted ''no available context'' else Undefined)
           | Some b \<Rightarrow> Returned b))"
  by (simp add: get_top_def Let_def and_then_def debug_abort_if_def abort_if_def deref_def
      split: option.splits)

lemma wf_local_ptr:
  "wf w \<Longrightarrow> local_top_ptr (st w) tid T =
     (case live w (LocalSlot tid T) of [] \<Rightarrow> None | a # as \<Rightarrow> Some a)"
  using wf_slot_head[of w "LocalSlot tid T"] by simp

lemma wf_global_ptr:
  "wf w \<Longrightarrow> global_top_ptr (st w) T =
     (case live w (GlobalSlot T) of [] \<Rightarrow> None | a # as \<Rightarrow> Some a)"
  using wf_slot_head[of w "GlobalSlot T"] by simp

lemma reachable_wf: "run mk evs init_sys = Some w \<Longrightarrow> wf w"
  using wf_init by (rule wf_run)

section \<open>Construction followed by destruction\<close>

lemma construct_step_ok:
  assumes "step mk (Construct TLocal T tid a xs) w = Some w1" and "mk T xs = Inr d"
  shows "objs (st w) a = None"
    and "objs (st w1) a = Some \<lparr> g_data = d, g_prev = ptr_ref TLocal T tid (st w) \<rparr>"
    and "st w1 = snd (guard_ctor mk TLocal T tid a xs (st w))"
    and "live w1 = (live w)(slot_of TLocal T tid := a # live w (slot_of TLocal T tid))"
  using assms
  by (auto simp: step_def guard_ctor_def Let_def objs_set_ptr_ref split: if_splits)

lemma dtor_immediately_after_ctor:
  assumes "objs s a = None" and "mk T xs = Inr d"
  shows "guard_dtor TLocal T tid a (snd (guard_ctor mk TLocal T tid a xs s)) = Some s"
proof -
  have 1: "(objs s)(a := None) = objs s" using assms(1) by auto
  show ?thesis
    using assms(2) 1
    by (cases TLocal) (simp_all add: guard_ctor_def guard_dtor_def Let_def set_ptr_ref_def ptr_ref_def)
qed

section \<open>A guard's scope, with the scopes nested in it\<close>

lemma wf_ptr_alive:
  assumes "wf w" and "slot_ptr (st w) k = Some c"
  shows "\<exists>g. objs (st w) c = Some g"
proof -
  from assms have "live w k \<noteq> [] \<and> hd (live w k) = c"
    by (cases "live w k") (simp_all add: wf_slot_head)
  then obtain as where "live w k = c # as" by (cases "live w k") auto
  with assms(1) show ?thesis by (rule wf_head_alive)
qed

lemma destroy_step_ok:
  assumes "step mk (Destroy TLocal T tid a) w = Some w'"
  shows "\<exists>g rest. objs (st w) a = Some g \<and> live w (slot_of TLocal T tid) = a # rest
           \<and> st w' = set_ptr_ref TLocal T tid (g_prev g) ((st w)\<lparr> objs := (objs (st w))(a := None) \<rparr>)
           \<and> live w' = (live w)(slot_of TLocal T tid := rest)"
  using assms
  by (auto simp: step_def guard_dtor_def split: list.splits if_splits option.splits)

lemma scope_round_trip:
  assumes w: "wf w"
    and c: "step mk (Construct TLocal T tid a xs) w = Some w1" and mk: "mk T xs = Inr d"
    and r: "run mk evs w1 = Some w2"
    and fr: "\<forall>b\<in>set (destroyed_addrs evs). objs (st w1) b = None"
    and lv: "live w2 = live w1"
    and ds: "step mk (Destroy TLocal T tid a) w2 = Some w3"
  shows "slot_ptr (st w3) k = slot_ptr (st w) k"
    and "objs (st w) c = Some g \<Longrightarrow> objs (st w3) c = Some g"
    and "live w3 = live w"
proof -
  note co = construct_step_ok[OF c mk]
  have w1: "wf w1" using w c by (rule wf_step)
  have a1: "objs (st w1) a = Some \<lparr> g_data = d, g_prev = ptr_ref TLocal T tid (st w) \<rparr>"
    by (rule co(2))
  have na: "a \<notin> set (destroyed_addrs evs)" using fr a1 by auto
  have a2: "objs (st w2) a = Some \<lparr> g_data = d, g_prev = ptr_ref TLocal T tid (st w) \<rparr>"
    using r a1 na by (rule run_objs_kept)
  from destroy_step_ok[OF ds] a2 obtain rest where
    l2: "live w2 (slot_of TLocal T tid) = a # rest"
    and s3: "st w3 = set_ptr_ref TLocal T tid (ptr_ref TLocal T tid (st w))
                ((st w2)\<lparr> objs := (objs (st w2))(a := None) \<rparr>)"
    and l3: "live w3 = (live w2)(slot_of TLocal T tid := rest)"
    by auto
  have s21: "slot_ptr (st w2) k = slot_ptr (st w1) k" using w1 r lv by (rule scope_slots)
  have s10: "k \<noteq> slot_of TLocal T tid \<Longrightarrow> slot_ptr (st w1) k = slot_ptr (st w) k"
    using mk by (simp add: co(3) guard_ctor_def Let_def slot_ptr_set_ptr_ref slot_ptr_objs_update)
  show "slot_ptr (st w3) k = slot_ptr (st w) k"
    using s21 s10 by (simp add: s3 slot_ptr_set_ptr_ref slot_ptr_objs_update ptr_ref_slot)
  show "live w3 = live w"
    using l2 by (auto simp: l3 lv co(4))
  show "objs (st w3) c = Some g" if g: "objs (st w) c = Some g"
  proof -
    have ca: "c \<noteq> a" using g co(1) by auto
    have c1: "objs (st w1) c = Some g"
      using g ca mk by (simp add: co(3) guard_ctor_def Let_def objs_set_ptr_ref)
    have "c \<notin> set (destroyed_addrs evs)" using fr c1 by auto
    with r c1 have "objs (st w2) c = Some g" by (rule run_objs_kept)
    with ca show ?thesis by (simp add: s3 objs_set_ptr_ref)
  qed
qed

lemma same_slots_same_refs:
  assumes "\<And>k. slot_ptr s' k = slot_ptr s k"
  shows "get_local dbg tid T s' = get_local dbg tid T s"
    and "get_global dbg tid T s' = get_global dbg tid T s"
    and "get_top dbg tid T s' = get_top dbg tid T s"
  using assms[of "LocalSlot tid T"] assms[of "GlobalSlot T"]
  by (simp_all add: get_local_ptr get_global_ptr get_top_ptr split: option.splits)

lemma local_ref_slot:
  "get_local dbg tid T s = Returned c \<Longrightarrow> slot_ptr s (LocalSlot tid T) = Some c"
  by (auto simp: get_local_ptr split: option.splits if_splits)

lemma global_ref_slot:
  "get_global dbg tid T s = Returned c \<Longrightarrow> slot_ptr s (GlobalSlot T) = Some c"
  by (auto simp: get_global_ptr split: option.splits if_splits)

lemma top_ref_slot:
  "get_top dbg tid T s = Returned c
   \<Longrightarrow> slot_ptr s (LocalSlot tid T) = Some c \<or> slot_ptr s (GlobalSlot T) = Some c"
  by (auto simp: get_top_ptr split: option.splits if_splits)

lemma payload_kept:
  assumes "wf w" and "\<And>x. r = Returned x \<Longrightarrow> \<exists>k. slot_ptr (st w) k = Some x"
    and "\<And>x g. objs (st w) x = Some g \<Longrightarrow> objs s' x = Some g"
  shows "payload s' r = payload (st w) r"
proof (cases r)
  case (Returned x)
  with assms(2) obtain k where "slot_ptr (st w) k = Some x" by blast
  with assms(1) obtain g where "objs (st w) x = Some g" using wf_ptr_alive by blast
  with assms(3)[OF this] Returned show ?thesis by (simp add: payload_def)
qed (simp_all add: payload_def)

section \<open>What an event leaves alone\<close>

lemma ctor_other_slot:
  "k \<noteq> slot_of TLocal T tid \<Longrightarrow> slot_ptr (snd (guard_ctor mk TLocal T tid a xs s)) k = slot_ptr s k"
  by (simp add: guard_ctor_def Let_def slot_ptr_set_ptr_ref slot_ptr_objs_update split: sum.splits)

lemma dtor_other_slot:
  "guard_dtor TLocal T tid a s = Some s' \<Longrightarrow> k \<noteq> slot_of TLocal T tid \<Longrightarrow> slot_ptr s' k = slot_ptr s k"
  by (auto simp: guard_dtor_def slot_ptr_set_ptr_ref slot_ptr_objs_update split: option.splits)

lemma wf_disjoint: "wf w \<Longrightarrow> k \<noteq> k' \<Longrightarrow> set (live w k) \<inter> set (live w k') = {}"
  unfolding wf_def by blast

lemma step_other_slot:
  fixes w :: "('ty, 'tid, 'v) sys"
  assumes w: "wf w" and s: "step mk ev w = Some w'"
    and k: "k \<noteq> slot_of (event_local ev) (event_type ev) (event_thread ev)"
  shows "slot_ptr (st w') k = slot_ptr (st w) k"
    and "live w' k = live w k"
    and "slot_ptr (st w) k = Some c \<Longrightarrow> objs (st w') c = objs (st w) c"
proof -
  have "slot_ptr (st w') k = slot_ptr (st w) k \<and> live w' k = live w k
      \<and> (slot_ptr (st w) k = Some c \<longrightarrow> objs (st w') c = objs (st w) c)"
  proof (cases ev)
    case (Construct TLocal T tid a xs)
    from s Construct have fr: "objs (st w) a = None"
      by (auto simp: step_def split: if_splits)
    have ca: "slot_ptr (st w) k = Some c \<longrightarrow> c \<noteq> a"
      using wf_ptr_alive[OF w, of k c] fr by auto
    from s Construct k fr ca show ?thesis
      by (auto simp: step_def guard_ctor_def Let_def slot_ptr_set_ptr_ref slot_ptr_objs_update
          objs_set_ptr_ref split: sum.splits)
  next
    case (Destroy TLocal T tid a)
    from destroy_step_ok[OF s[unfolded Destroy]] obtain g :: "'v guard" and rest where
      l: "live w (slot_of TLocal T tid) = a # rest"
      and s': "st w' = set_ptr_ref TLocal T tid (g_prev g) ((st w)\<lparr> objs := (objs (st w))(a := None) \<rparr>)"
      and l': "live w' = (live w)(slot_of TLocal T tid := rest)"
      by auto
    from k Destroy have kk: "k \<noteq> slot_of TLocal T tid" by simp
    have dj: "set (live w k) \<inter> set (live w (slot_of TLocal T tid)) = {}"
      using w kk by (rule wf_disjoint)
    have ca: "slot_ptr (st w) k = Some c \<longrightarrow> c \<noteq> a"
    proof
      assume "slot_ptr (st w) k = Some c"
      then have "c \<in> set (live w k)"
        using wf_slot_head[OF w, of k] by (cases "live w k") auto
      with dj l show "c \<noteq> a" by auto
    qed
    from kk ca show ?thesis
      by (simp add: s' l' slot_ptr_set_ptr_ref slot_ptr_objs_update objs_set_ptr_ref)
  qed
  then show "slot_ptr (st w') k = slot_ptr (st w) k"
    and "live w' k = live w k"
    and "slot_ptr (st w) k = Some c \<Longrightarrow> objs (st w') c = objs (st w) c"
    by simp_all
qed

lemma payload_same_obj:
  assumes "\<And>c. r = Returned c \<Longrightarrow> objs s' c = objs s c"
  shows "payload s' r = payload s r"
  using assms by (cases r) (simp_all add: payload_def)

lemma step_other_local:
  assumes w: "wf w" and s: "step mk ev w = Some w'"
    and k: "LocalSlot tid U \<noteq> slot_of (event_local ev) (event_type ev) (event_thread ev)"
  shows "get_local dbg tid U (st w') = get_local dbg tid U (st w)"
    and "payload (st w') (get_local dbg tid U (st w')) = payload (st w) (get_local dbg tid U (st w))"
proof -
  note o = step_other_slot[OF w s k]
  show e: "get_local dbg tid U (st w') = get_local dbg tid U (st w)"
    using o(1) by (simp add: get_local_ptr)
  show "payload (st w') (get_local dbg tid U (st w')) = payload (st w) (get_local dbg tid U (st w))"
    unfolding e using o(3) local_ref_slot[of dbg tid U "st w"] by (intro payload_same_obj) blast
qed

lemma step_other_global:
  assumes w: "wf w" and s: "step mk ev w = Some w'"
    and k: "GlobalSlot U \<noteq> slot_of (event_local ev) (event_type ev) (event_thread ev)"
  shows "get_global dbg tid U (st w') = get_global dbg tid U (st w)"
    and "payload (st w') (get_global dbg tid U (st w')) = payload (st w) (get_global dbg tid U (st w))"
proof -
  note o = step_other_slot[OF w s k]
  show e: "get_global dbg tid U (st w') = get_global dbg tid U (st w)"
    using o(1) by (simp add: get_global_ptr)
  show "payload (st w') (get_global dbg tid U (st w')) = payload (st w) (get_global dbg tid U (st w))"
    unfolding e using o(3) global_ref_slot[of dbg tid U "st w"] by (intro payload_same_obj) blast
qed

lemma step_other_top:
  assumes w: "wf w" and s: "step mk ev w = Some w'"
    and k: "LocalSlot tid U \<noteq> slot_of (event_local ev) (event_type ev) (event_thread ev)"
    and k': "GlobalSlot U \<noteq> slot_of (event_local ev) (event_type ev) (event_thread ev)"
  shows "get_top dbg tid U (st w') = get_top dbg tid U (st w)"
    and "payload (st w') (get_top dbg tid U (st w')) = payload (st w) (get_top dbg tid U (st w))"
proof -
  note o = step_other_slot[OF w s k] and o' = step_other_slot[OF w s k']
  show e: "get_top dbg tid U (st w') = get_top dbg tid U (st w)"
    using o(1) o'(1) by (simp add: get_top_ptr split: option.splits)
  show "payload (st w') (get_top dbg tid U (st w')) = payload (st w) (get_top dbg tid U (st w))"
    unfolding e using o(3) o'(3) top_ref_slot[of dbg tid U "st w"] by (intro payload_same_obj) blast
qed

lemma same_ptrs_same_refs:
  assumes "local_top_ptr s' tid T = local_top_ptr s tid T"
    and "global_top_ptr s' T = global_top_ptr s T"
  shows "get_local dbg tid T s' = get_local dbg tid T s
       \<and> get_global dbg tid T s' = get_global dbg tid T s
       \<and> get_top dbg tid T s' = get_top dbg tid T s"
  using assms by (simp add: get_local_ptr get_global_ptr get_top_ptr split: option.splits)

lemma local_events_commute:
  fixes w :: "('ty, 'tid, 'v) sys"
  assumes "event_local e1" and "event_local e2" and "event_thread e1 \<noteq> event_thread e2"
    and "event_addr e1 \<noteq> event_addr e2"
  shows "run mk [e1, e2] w = run mk [e2, e1] w"
proof -
  have sl: "\<And>T T' t t'. t \<noteq> t' \<Longrightarrow> LocalSlot t T \<noteq> LocalSlot t' T'" by simp
  show ?thesis
  proof (cases e1; cases e2)
    fix l1 T1 t1 a1 x1 l2 T2 t2 a2 x2
    assume e: "e1 = Construct l1 T1 t1 a1 x1" "e2 = Construct l2 T2 t2 a2 x2"
    with assms have h: "l1" "l2" "t1 \<noteq> t2" "a1 \<noteq> a2" by simp_all
    show ?thesis
      unfolding e using h
      by (cases "mk T1 x1"; cases "mk T2 x2")
         (auto simp: step_def guard_ctor_def Let_def set_ptr_ref_def ptr_ref_def slot_of_def
            fun_upd_twist)
  next
    fix l1 T1 t1 a1 x1 l2 T2 t2 a2
    assume e: "e1 = Construct l1 T1 t1 a1 x1" "e2 = Destroy l2 T2 t2 a2"
    with assms have h: "l1" "l2" "t1 \<noteq> t2" "a1 \<noteq> a2" by simp_all
    show ?thesis
      unfolding e using h
      by (cases "mk T1 x1"; cases "live w (LocalSlot t2 T2)"; cases "objs (st w) a2")
         (auto simp: step_def guard_ctor_def guard_dtor_def Let_def set_ptr_ref_def ptr_ref_def
            slot_of_def fun_upd_twist)
  next
    fix l1 T1 t1 a1 l2 T2 t2 a2 x2
    assume e: "e1 = Destroy l1 T1 t1 a1" "e2 = Construct l2 T2 t2 a2 x2"
    with assms have h: "l1" "l2" "t1 \<noteq> t2" "a1 \<noteq> a2" by simp_all
    show ?thesis
      unfolding e using h
      by (cases "mk T2 x2"; cases "live w (LocalSlot t1 T1)"; cases "objs (st w) a1")
         (auto simp: step_def guard_ctor_def guard_dtor_def Let_def set_ptr_ref_def ptr_ref_def
            slot_of_def fun_upd_twist)
  next
    fix l1 T1 t1 a1 l2 T2 t2 a2
    assume e: "e1 = Destroy l1 T1 t1 a1" "e2 = Destroy l2 T2 t2 a2"
    with assms have h: "l1" "l2" "t1 \<noteq> t2" "a1 \<noteq> a2" by simp_all
    show ?thesis
      unfolding e using h
      by (cases "live w (LocalSlot t1 T1)"; cases "live w (LocalSlot t2 T2)";
          cases "objs (st w) a1"; cases "objs (st w) a2")
         (auto simp: step_def guard_dtor_def Let_def set_ptr_ref_def ptr_ref_def
            slot_of_def fun_upd_twist)
  qed
qed

section \<open>The claims\<close>

text \<open>
  C1: \<open>get_top\<close> returns the payload of the innermost live local guard of the calling
  thread when one is active (it is then what \<open>get_local\<close> returns); otherwise it returns
  the payload of the innermost live global guard (what \<open>get_global\<close> returns). With
  neither, the checked build aborts and the unchecked build is undefined.
\<close>

theorem get_top_local_shadows_global:
  assumes "run mk evs init_sys = Some w"
  shows "(case live w (LocalSlot tid T) of
            a # as \<Rightarrow>
              get_top dbg tid T (st w) = Returned a
              \<and> get_top dbg tid T (st w) = get_local dbg tid T (st w)
              \<and> (\<exists>g. objs (st w) a = Some g
                     \<and> payload (st w) (get_top dbg tid T (st w)) = Returned (g_data g))
          | [] \<Rightarrow>
              (case live w (GlobalSlot T) of
                 b # bs \<Rightarrow>
                   get_top dbg tid T (st w) = Returned b
                   \<and> get_top dbg tid T (st w) = get_global dbg tid T (st w)
                   \<and> (\<exists>g. objs (st w) b = Some g
                          \<and> payload (st w) (get_top dbg tid T (st w)) = Returned (g_data g))
               | [] \<Rightarrow>
                   get_top dbg tid T (st w)
                     = (if dbg then Aborted ''no available context'' else Undefined)))"
proof -
  have w: "wf w" using assms by (rule reachable_wf)
  note lp = wf_local_ptr[OF w, of tid T] and gp = wf_global_ptr[OF w, of T]
  show ?thesis
  proof (cases "live w (LocalSlot tid T)")
    case (Cons a as)
    from wf_head_alive[OF w Cons] obtain g where g: "objs (st w) a = Some g" ..
    from Cons lp g show ?thesis
      by (simp add: get_top_ptr get_local_ptr payload_def)
  next
    case Nil
    show ?thesis
    proof (cases "live w (GlobalSlot T)")
      case (Cons b bs)
      from wf_head_alive[OF w Cons] obtain g where g: "objs (st w) b = Some g" ..
      from Nil Cons lp gp g show ?thesis
        by (simp add: get_top_ptr get_global_ptr payload_def)
    next
      case Nil2: Nil
      from Nil Nil2 lp gp show ?thesis by (simp add: get_top_ptr)
    qed
  qed
qed

theorem get_top_local_shadows_global_witness:
  "run int_ctx_data [Construct False Int_ctx (0::nat) 1 1, Construct False Int_ctx 0 2 5,
      Construct True Int_ctx 0 3 10] init_sys \<noteq> None
   \<and> live (the (run int_ctx_data [Construct False Int_ctx (0::nat) 1 1, Construct False Int_ctx 0 2 5,
      Construct True Int_ctx 0 3 10] init_sys)) (LocalSlot 0 Int_ctx) = [3]
   \<and> get_top True 0 Int_ctx (st (the (run int_ctx_data [Construct False Int_ctx (0::nat) 1 1,
      Construct False Int_ctx 0 2 5, Construct True Int_ctx 0 3 10] init_sys))) = Returned 3
   \<and> payload (st (the (run int_ctx_data [Construct False Int_ctx (0::nat) 1 1,
      Construct False Int_ctx 0 2 5, Construct True Int_ctx 0 3 10] init_sys)))
        (get_top True 0 Int_ctx (st (the (run int_ctx_data [Construct False Int_ctx (0::nat) 1 1,
      Construct False Int_ctx 0 2 5, Construct True Int_ctx 0 3 10] init_sys)))) = Returned 10
   \<and> run int_ctx_data [Construct False Int_ctx (0::nat) 1 1, Construct False Int_ctx 0 2 5] init_sys \<noteq> None
   \<and> live (the (run int_ctx_data [Construct False Int_ctx (0::nat) 1 1,
      Construct False Int_ctx 0 2 5] init_sys)) (LocalSlot 0 Int_ctx) = []
   \<and> live (the (run int_ctx_data [Construct False Int_ctx (0::nat) 1 1,
      Construct False Int_ctx 0 2 5] init_sys)) (GlobalSlot Int_ctx) = [2, 1]
   \<and> get_top True 0 Int_ctx (st (the (run int_ctx_data [Construct False Int_ctx (0::nat) 1 1,
      Construct False Int_ctx 0 2 5] init_sys))) = Returned 2
   \<and> payload (st (the (run int_ctx_data [Construct False Int_ctx (0::nat) 1 1,
      Construct False Int_ctx 0 2 5] init_sys)))
        (get_top True 0 Int_ctx (st (the (run int_ctx_data [Construct False Int_ctx (0::nat) 1 1,
      Construct False Int_ctx 0 2 5] init_sys)))) = Returned 5"
proof -
  let ?e3 = "[Construct False Int_ctx (0::nat) 1 1, Construct False Int_ctx 0 2 5,
      Construct True Int_ctx 0 3 10]"
  let ?e2 = "[Construct False Int_ctx (0::nat) 1 1, Construct False Int_ctx 0 2 5]"
  let ?r3 = "run int_ctx_data ?e3 (init_sys :: (ctx, nat, int) sys)"
  let ?r2 = "run int_ctx_data ?e2 (init_sys :: (ctx, nat, int) sys)"
  have r3: "?r3 = Some (the ?r3)" by (simp add: exec_defs)
  have r2: "?r2 = Some (the ?r2)" by (simp add: exec_defs)
  from get_top_local_shadows_global[OF r3, where tid = 0 and T = Int_ctx and dbg = True]
       get_top_local_shadows_global[OF r2, where tid = 0 and T = Int_ctx and dbg = True]
  show ?thesis by (simp add: exec_defs payload_def)
qed

text \<open>
  C2: every slot starts empty and, after any well-nested sequence of guard constructions
  and destructions, holds the address of the most recently constructed guard of its
  (type, scope) that is not yet destroyed; it is empty exactly when no such guard is
  alive. \<open>live w k\<close> lists the guards of slot \<open>k\<close> that are alive, the most recent first.
\<close>

theorem slot_tracks_live_guards:
  assumes "run mk evs init_sys = Some w"
  shows "slot_ptr (st w) k = (case live w k of [] \<Rightarrow> None | a # as \<Rightarrow> Some a)
       \<and> (slot_ptr (st w) k = None \<longleftrightarrow> live w k = [])
       \<and> (case live w k of [] \<Rightarrow> True | a # as \<Rightarrow> objs (st w) a \<noteq> None)
       \<and> slot_ptr (st (init_sys :: ('a, 'b, 'c) sys)) k = None"
proof -
  have w: "wf w" using wf_init assms by (rule wf_run)
  have h: "slot_ptr (st w) k = (case live w k of [] \<Rightarrow> None | a # as \<Rightarrow> Some a)"
    using w by (rule wf_slot_head)
  have e: "slot_ptr (st w) k = None \<longleftrightarrow> live w k = []"
    using h by (cases "live w k") simp_all
  have o: "case live w k of [] \<Rightarrow> True | a # as \<Rightarrow> objs (st w) a \<noteq> None"
    using wf_head_alive[OF w, of k] by (cases "live w k") auto
  have i: "slot_ptr (st (init_sys :: ('a, 'b, 'c) sys)) k = None"
    by (simp add: init_sys_def slot_ptr_init)
  from h e o i show ?thesis by blast
qed

theorem slot_tracks_live_guards_witness:
  "run int_ctx_data [Construct False Int_ctx (0::nat) 1 1, Construct False Int_ctx 0 2 5,
      Construct True Int_ctx 0 3 10, Destroy True Int_ctx 0 3] init_sys \<noteq> None
   \<and> live (the (run int_ctx_data [Construct False Int_ctx (0::nat) 1 1, Construct False Int_ctx 0 2 5,
      Construct True Int_ctx 0 3 10, Destroy True Int_ctx 0 3] init_sys)) (GlobalSlot Int_ctx) = [2, 1]
   \<and> slot_ptr (st (the (run int_ctx_data [Construct False Int_ctx (0::nat) 1 1, Construct False Int_ctx 0 2 5,
      Construct True Int_ctx 0 3 10, Destroy True Int_ctx 0 3] init_sys))) (GlobalSlot Int_ctx) = Some 2
   \<and> live (the (run int_ctx_data [Construct False Int_ctx (0::nat) 1 1, Construct False Int_ctx 0 2 5,
      Construct True Int_ctx 0 3 10, Destroy True Int_ctx 0 3] init_sys)) (LocalSlot 0 Int_ctx) = []
   \<and> slot_ptr (st (the (run int_ctx_data [Construct False Int_ctx (0::nat) 1 1, Construct False Int_ctx 0 2 5,
      Construct True Int_ctx 0 3 10, Destroy True Int_ctx 0 3] init_sys))) (LocalSlot 0 Int_ctx) = None"
proof -
  let ?evs = "[Construct False Int_ctx (0::nat) 1 1, Construct False Int_ctx 0 2 5,
      Construct True Int_ctx 0 3 10, Destroy True Int_ctx 0 3]"
  let ?r = "run int_ctx_data ?evs (init_sys :: (ctx, nat, int) sys)"
  have r: "?r = Some (the ?r)" by (simp add: exec_defs)
  have l1: "live (the ?r) (GlobalSlot Int_ctx) = [2, 1]" by (simp add: exec_defs)
  have l2: "live (the ?r) (LocalSlot 0 Int_ctx) = []" by (simp add: exec_defs)
  from slot_tracks_live_guards[OF r, of "GlobalSlot Int_ctx"]
       slot_tracks_live_guards[OF r, of "LocalSlot 0 Int_ctx"] r l1 l2
  show ?thesis by (simp add: exec_defs)
qed

text \<open>
  C3: constructing a guard and then destroying it is a round trip, from every slot
  state. After a guard is constructed at \<open>a\<close> and any further events of a well-nested
  execution that do not destroy it, its destructor does not fail and writes back into
  its slot the pointer the slot held immediately before the construction; when nothing
  happens in between, the whole program state is as before.
\<close>

theorem guard_round_trip:
  assumes "step mk (Construct TLocal T tid a xs) w = Some w1" and "mk T xs = Inr d"
    and "run mk evs w1 = Some w2" and "a \<notin> set (destroyed_addrs evs)"
  shows "\<exists>s3. guard_dtor TLocal T tid a (st w2) = Some s3
            \<and> ptr_ref TLocal T tid s3 = ptr_ref TLocal T tid (st w)
            \<and> (evs = [] \<longrightarrow> s3 = st w)"
proof -
  note c = construct_step_ok[OF assms(1,2)]
  have o2: "objs (st w2) a = Some \<lparr> g_data = d, g_prev = ptr_ref TLocal T tid (st w) \<rparr>"
    using assms(3) c(2) assms(4) by (rule run_objs_kept)
  let ?s3 = "set_ptr_ref TLocal T tid (ptr_ref TLocal T tid (st w))
               ((st w2)\<lparr> objs := (objs (st w2))(a := None) \<rparr>)"
  have d: "guard_dtor TLocal T tid a (st w2) = Some ?s3"
    using o2 by (simp add: guard_dtor_def)
  have p: "ptr_ref TLocal T tid ?s3 = ptr_ref TLocal T tid (st w)"
    by (simp add: ptr_ref_slot slot_ptr_set_ptr_ref)
  have e: "evs = [] \<longrightarrow> ?s3 = st w"
  proof
    assume "evs = []"
    with assms(3) have "w2 = w1" by simp
    with c(3) dtor_immediately_after_ctor[where mk = mk and T = T and xs = xs and d = d
        and s = "st w" and a = a and TLocal = TLocal and tid = tid, OF c(1) assms(2)] d
    show "?s3 = st w" by simp
  qed
  from d p e show ?thesis by blast
qed

theorem guard_round_trip_witness:
  "step int_ctx_data (Construct True Int_ctx (0::nat) 1 7) init_sys \<noteq> None
   \<and> int_ctx_data Int_ctx 7 = Inr 7
   \<and> run int_ctx_data [Construct True Int_ctx 0 2 8, Destroy True Int_ctx 0 2]
        (the (step int_ctx_data (Construct True Int_ctx (0::nat) 1 7) init_sys)) \<noteq> None
   \<and> 1 \<notin> set (destroyed_addrs [Construct True Int_ctx (0::nat) 2 (8::int), Destroy True Int_ctx 0 2])
   \<and> (\<exists>s3. guard_dtor True Int_ctx (0::nat) 1
              (st (the (run int_ctx_data [Construct True Int_ctx 0 2 8, Destroy True Int_ctx 0 2]
                 (the (step int_ctx_data (Construct True Int_ctx (0::nat) 1 7) init_sys))))) = Some s3
          \<and> ptr_ref True Int_ctx (0::nat) s3 = ptr_ref True Int_ctx 0 (st (init_sys :: (ctx, nat, int) sys))
          \<and> local_top_ptr s3 0 Int_ctx = None)"
proof -
  let ?s1 = "step int_ctx_data (Construct True Int_ctx (0::nat) 1 7) (init_sys :: (ctx, nat, int) sys)"
  let ?evs = "[Construct True Int_ctx (0::nat) 2 (8::int), Destroy True Int_ctx 0 2]"
  let ?r = "run int_ctx_data ?evs (the ?s1)"
  have s1: "?s1 = Some (the ?s1)" by (simp add: exec_defs)
  have mk: "int_ctx_data Int_ctx 7 = (Inr 7 :: string + int)" by (simp add: int_ctx_data_def)
  have r: "?r = Some (the ?r)" by (simp add: exec_defs)
  have n: "1 \<notin> set (destroyed_addrs ?evs)" by simp
  from guard_round_trip[where mk = int_ctx_data and T = Int_ctx and xs = 7 and d = 7, OF s1 mk r n]
  obtain s3 where
    "guard_dtor True Int_ctx (0::nat) 1 (st (the ?r)) = Some s3"
    "ptr_ref True Int_ctx (0::nat) s3 = ptr_ref True Int_ctx 0 (st (init_sys :: (ctx, nat, int) sys))"
    by blast
  moreover from this(2) have "local_top_ptr s3 0 Int_ctx = None"
    by (simp add: ptr_ref_def init_sys_def init_state_def)
  ultimately have "\<exists>s3. guard_dtor True Int_ctx (0::nat) 1 (st (the ?r)) = Some s3
          \<and> ptr_ref True Int_ctx (0::nat) s3 = ptr_ref True Int_ctx 0 (st (init_sys :: (ctx, nat, int) sys))
          \<and> local_top_ptr s3 0 Int_ctx = None" by blast
  moreover have "?s1 \<noteq> None" using s1 by (metis option.distinct(1))
  moreover have "?r \<noteq> None" using r by (metis option.distinct(1))
  ultimately show ?thesis using mk n by blast
qed

text \<open>
  C4: guard construction is atomic with respect to a failing payload constructor. When
  constructing the payload throws, the constructor of the guard ends with that
  exception and the state it leaves is the state it found: neither slot is written, no
  accessor of any thread and type sees a difference, and the execution has no new live
  guard.
\<close>

theorem failed_payload_construction_leaves_slots:
  assumes "mk T xs = Inl e"
  shows "guard_ctor mk TLocal T tid this xs s = (Inl e, s)
       \<and> global_top_ptr (snd (guard_ctor mk TLocal T tid this xs s)) = global_top_ptr s
       \<and> local_top_ptr (snd (guard_ctor mk TLocal T tid this xs s)) = local_top_ptr s
       \<and> get_local dbg tid' U (snd (guard_ctor mk TLocal T tid this xs s)) = get_local dbg tid' U s
       \<and> get_global dbg tid' U (snd (guard_ctor mk TLocal T tid this xs s)) = get_global dbg tid' U s
       \<and> get_top dbg tid' U (snd (guard_ctor mk TLocal T tid this xs s)) = get_top dbg tid' U s
       \<and> (objs (st w) this = None \<longrightarrow> step mk (Construct TLocal T tid this xs) w = Some w)"
proof -
  have 1: "guard_ctor mk TLocal T tid this xs s = (Inl e, s)"
    using assms by (simp add: guard_ctor_def)
  have 2: "objs (st w) this = None \<longrightarrow> step mk (Construct TLocal T tid this xs) w = Some w"
    using assms by (simp add: step_def guard_ctor_def)
  from 1 2 show ?thesis by simp
qed

theorem failed_payload_construction_leaves_slots_witness:
  "checked_ctx_data Int_ctx (- 1) = Inl ''negative''
   \<and> guard_ctor checked_ctx_data True Int_ctx (0::nat) 5 (- 1) (st (the (run checked_ctx_data
        [Construct False Int_ctx (0::nat) 1 1, Construct True Int_ctx 0 3 10] init_sys)))
      = (Inl ''negative'', st (the (run checked_ctx_data
        [Construct False Int_ctx (0::nat) 1 1, Construct True Int_ctx 0 3 10] init_sys)))
   \<and> get_top True (0::nat) Int_ctx (snd (guard_ctor checked_ctx_data True Int_ctx (0::nat) 5 (- 1)
        (st (the (run checked_ctx_data
        [Construct False Int_ctx (0::nat) 1 1, Construct True Int_ctx 0 3 10] init_sys)))))
      = Returned 3"
proof -
  have mk: "checked_ctx_data Int_ctx (- 1) = Inl ''negative''" by (simp add: checked_ctx_data_def)
  let ?s = "st (the (run checked_ctx_data
        [Construct False Int_ctx (0::nat) 1 1, Construct True Int_ctx 0 3 10] (init_sys :: (ctx, nat, int) sys)))"
  have t: "get_top True (0::nat) Int_ctx ?s = Returned 3"
    by (simp add: exec_defs get_top_ptr)
  from failed_payload_construction_leaves_slots[where mk = checked_ctx_data and T = Int_ctx
      and xs = "- 1" and e = "''negative''" and TLocal = True and tid = "0::nat" and this = 5
      and s = ?s and dbg = True and tid' = 0 and U = Int_ctx, OF mk] mk t
  show ?thesis by simp
qed

text \<open>
  C5: in the checked build (\<open>TLCONTEXT_DEBUG\<close>), in every state of a well-nested
  execution, an accessor halts the process with its diagnostic exactly when the context
  it needs is missing: \<open>get_local\<close> when the calling thread has no live local guard,
  \<open>get_global\<close> when there is no live global guard, \<open>get_top\<close> when there is neither;
  otherwise it returns the reference to the innermost guard's payload.
\<close>

theorem checked_accessors_abort_iff_no_context:
  assumes "run mk evs init_sys = Some w"
  shows "get_local True tid T (st w) =
           (case live w (LocalSlot tid T) of
              [] \<Rightarrow> Aborted ''tried using inactive local context''
            | a # as \<Rightarrow> Returned a)
       \<and> get_global True tid T (st w) =
           (case live w (GlobalSlot T) of
              [] \<Rightarrow> Aborted ''tried using inactive global context''
            | b # bs \<Rightarrow> Returned b)
       \<and> get_top True tid T (st w) =
           (case live w (LocalSlot tid T) of
              a # as \<Rightarrow> Returned a
            | [] \<Rightarrow>
                (case live w (GlobalSlot T) of
                   [] \<Rightarrow> Aborted ''no available context''
                 | b # bs \<Rightarrow> Returned b))
       \<and> ((\<exists>m. get_local True tid T (st w) = Aborted m) \<longleftrightarrow> live w (LocalSlot tid T) = [])
       \<and> ((\<exists>m. get_global True tid T (st w) = Aborted m) \<longleftrightarrow> live w (GlobalSlot T) = [])
       \<and> ((\<exists>m. get_top True tid T (st w) = Aborted m)
            \<longleftrightarrow> live w (LocalSlot tid T) = [] \<and> live w (GlobalSlot T) = [])"
proof -
  have w: "wf w" using assms by (rule reachable_wf)
  note lp = wf_local_ptr[OF w, of tid T] and gp = wf_global_ptr[OF w, of T]
  have l: "get_local True tid T (st w) =
           (case live w (LocalSlot tid T) of
              [] \<Rightarrow> Aborted ''tried using inactive local context''
            | a # as \<Rightarrow> Returned a)"
    using lp by (simp add: get_local_ptr split: list.splits)
  have g: "get_global True tid T (st w) =
           (case live w (GlobalSlot T) of
              [] \<Rightarrow> Aborted ''tried using inactive global context''
            | b # bs \<Rightarrow> Returned b)"
    using gp by (simp add: get_global_ptr split: list.splits)
  have t: "get_top True tid T (st w) =
           (case live w (LocalSlot tid T) of
              a # as \<Rightarrow> Returned a
            | [] \<Rightarrow>
                (case live w (GlobalSlot T) of
                   [] \<Rightarrow> Aborted ''no available context''
                 | b # bs \<Rightarrow> Returned b))"
    using lp gp by (simp add: get_top_ptr split: list.splits)
  have l': "(\<exists>m. get_local True tid T (st w) = Aborted m) \<longleftrightarrow> live w (LocalSlot tid T) = []"
    unfolding l by (cases "live w (LocalSlot tid T)") simp_all
  have g': "(\<exists>m. get_global True tid T (st w) = Aborted m) \<longleftrightarrow> live w (GlobalSlot T) = []"
    unfolding g by (cases "live w (GlobalSlot T)") simp_all
  have t': "(\<exists>m. get_top True tid T (st w) = Aborted m)
            \<longleftrightarrow> live w (LocalSlot tid T) = [] \<and> live w (GlobalSlot T) = []"
    unfolding t by (cases "live w (LocalSlot tid T)"; cases "live w (GlobalSlot T)") simp_all
  from l g t l' g' t' show ?thesis by blast
qed

theorem checked_accessors_abort_iff_no_context_witness:
  "run int_ctx_data [Construct False Int_ctx (0::nat) 1 1] init_sys \<noteq> None
   \<and> live (the (run int_ctx_data [Construct False Int_ctx (0::nat) 1 1] init_sys)) (LocalSlot 0 Int_ctx) = []
   \<and> live (the (run int_ctx_data [Construct False Int_ctx (0::nat) 1 1] init_sys)) (GlobalSlot Int_ctx) = [1]
   \<and> get_local True 0 Int_ctx (st (the (run int_ctx_data [Construct False Int_ctx (0::nat) 1 1] init_sys)))
        = Aborted ''tried using inactive local context''
   \<and> get_global True 0 Int_ctx (st (the (run int_ctx_data [Construct False Int_ctx (0::nat) 1 1] init_sys)))
        = Returned 1
   \<and> get_top True 0 Int_ctx (st (the (run int_ctx_data [Construct False Int_ctx (0::nat) 1 1] init_sys)))
        = Returned 1
   \<and> get_top True 0 Pmr_ctx (st (the (run int_ctx_data [Construct False Int_ctx (0::nat) 1 1] init_sys)))
        = Aborted ''no available context''"
proof -
  let ?r = "run int_ctx_data [Construct False Int_ctx (0::nat) 1 1] (init_sys :: (ctx, nat, int) sys)"
  have r: "?r = Some (the ?r)" by (simp add: exec_defs)
  from checked_accessors_abort_iff_no_context[OF r, where tid = 0 and T = Int_ctx]
       checked_accessors_abort_iff_no_context[OF r, where tid = 0 and T = Pmr_ctx]
  show ?thesis by (simp add: exec_defs)
qed

text \<open>
  C6, as the code has it: \<open>get_top\<close> called on the installing thread immediately
  after a guard is installed gives that guard's payload when the guard is local, or when
  it is global and the thread has no live local guard of the type (a live local guard
  keeps shadowing a global one installed after it). Called immediately after the
  guard's scope ends (every guard constructed inside the scope destroyed, none from
  outside it destroyed), \<open>get_top\<close> gives what it gave immediately before the guard was
  installed, the no-context abort included.
\<close>

theorem get_top_after_install_and_after_scope:
  assumes "run mk pre init_sys = Some w"
    and "step mk (Construct TLocal T tid a xs) w = Some w1" and "mk T xs = Inr d"
  shows "(TLocal \<or> live w (LocalSlot tid T) = [] \<longrightarrow>
            get_top dbg tid T (st w1) = Returned a
            \<and> payload (st w1) (get_top dbg tid T (st w1)) = Returned d)
       \<and> (\<forall>evs w2 w3.
            run mk evs w1 = Some w2
            \<and> (\<forall>b\<in>set (destroyed_addrs evs). objs (st w1) b = None)
            \<and> live w2 = live w1
            \<and> step mk (Destroy TLocal T tid a) w2 = Some w3 \<longrightarrow>
              get_top dbg tid T (st w3) = get_top dbg tid T (st w)
              \<and> payload (st w3) (get_top dbg tid T (st w3)) = payload (st w) (get_top dbg tid T (st w))
              \<and> (live w (LocalSlot tid T) = [] \<and> live w (GlobalSlot T) = [] \<longrightarrow>
                   get_top True tid T (st w3) = Aborted ''no available context''))"
proof (intro conjI impI allI)
  have w: "wf w" using assms(1) by (rule reachable_wf)
  note co = construct_step_ok[OF assms(2,3)]
  note lp = wf_local_ptr[OF w, of tid T] and gp = wf_global_ptr[OF w, of T]
  {
    assume h: "TLocal \<or> live w (LocalSlot tid T) = []"
    have oa: "objs (st w1) a = Some \<lparr> g_data = d, g_prev = ptr_ref TLocal T tid (st w) \<rparr>"
      by (rule co(2))
    show t1: "get_top dbg tid T (st w1) = Returned a"
    proof (cases TLocal)
      case True
      then show ?thesis using assms(3)
        by (simp add: co(3) guard_ctor_def Let_def set_ptr_ref_def get_top_ptr)
    next
      case False
      with h lp have "local_top_ptr (st w) tid T = None" by simp
      with False show ?thesis using assms(3)
        by (simp add: co(3) guard_ctor_def Let_def set_ptr_ref_def get_top_ptr)
    qed
    show "payload (st w1) (get_top dbg tid T (st w1)) = Returned d"
      by (simp add: t1 payload_def oa)
  }
  fix evs w2 w3
  assume sc: "run mk evs w1 = Some w2
            \<and> (\<forall>b\<in>set (destroyed_addrs evs). objs (st w1) b = None)
            \<and> live w2 = live w1
            \<and> step mk (Destroy TLocal T tid a) w2 = Some w3"
  then have r: "run mk evs w1 = Some w2"
    and fr: "\<forall>b\<in>set (destroyed_addrs evs). objs (st w1) b = None"
    and lv: "live w2 = live w1"
    and ds: "step mk (Destroy TLocal T tid a) w2 = Some w3"
    by simp_all
  note rt = scope_round_trip[OF w assms(2,3) r fr lv ds]
  show t3: "get_top dbg tid T (st w3) = get_top dbg tid T (st w)"
    using rt(1) by (rule same_slots_same_refs(3))
  have "\<And>x. get_top dbg tid T (st w) = Returned x \<Longrightarrow> \<exists>k. slot_ptr (st w) k = Some x"
    using top_ref_slot[of dbg tid T "st w"] by blast
  with w have "payload (st w3) (get_top dbg tid T (st w)) = payload (st w) (get_top dbg tid T (st w))"
    using rt(2) by (rule payload_kept)
  then show "payload (st w3) (get_top dbg tid T (st w3)) = payload (st w) (get_top dbg tid T (st w))"
    by (simp add: t3)
  {
    assume "live w (LocalSlot tid T) = [] \<and> live w (GlobalSlot T) = []"
    with lp gp have "get_top True tid T (st w) = Aborted ''no available context''"
      by (simp add: get_top_ptr)
    moreover have "get_top True tid T (st w3) = get_top True tid T (st w)"
      using rt(1) by (rule same_slots_same_refs(3))
    ultimately show "get_top True tid T (st w3) = Aborted ''no available context''" by simp
  }
qed


theorem get_top_after_install_and_after_scope_witness:
  "run int_ctx_data [Construct False Int_ctx (0::nat) 1 1] init_sys \<noteq> None
   \<and> step int_ctx_data (Construct True Int_ctx 0 3 10)
        (the (run int_ctx_data [Construct False Int_ctx (0::nat) 1 1] init_sys)) \<noteq> None
   \<and> int_ctx_data Int_ctx 10 = Inr 10
   \<and> get_top True 0 Int_ctx (st (the (step int_ctx_data (Construct True Int_ctx 0 3 10)
        (the (run int_ctx_data [Construct False Int_ctx (0::nat) 1 1] init_sys))))) = Returned 3
   \<and> payload (st (the (step int_ctx_data (Construct True Int_ctx 0 3 10)
        (the (run int_ctx_data [Construct False Int_ctx (0::nat) 1 1] init_sys)))))
        (get_top True 0 Int_ctx (st (the (step int_ctx_data (Construct True Int_ctx 0 3 10)
        (the (run int_ctx_data [Construct False Int_ctx (0::nat) 1 1] init_sys)))))) = Returned 10
   \<and> run int_ctx_data [Construct False Int_ctx (0::nat) 1 1, Construct True Int_ctx 0 3 10,
        Construct True Int_ctx 0 4 15, Destroy True Int_ctx 0 4, Destroy True Int_ctx 0 3] init_sys \<noteq> None
   \<and> payload (st (the (run int_ctx_data [Construct False Int_ctx (0::nat) 1 1, Construct True Int_ctx 0 3 10,
        Construct True Int_ctx 0 4 15, Destroy True Int_ctx 0 4, Destroy True Int_ctx 0 3] init_sys)))
        (get_top True 0 Int_ctx (st (the (run int_ctx_data [Construct False Int_ctx (0::nat) 1 1,
        Construct True Int_ctx 0 3 10, Construct True Int_ctx 0 4 15, Destroy True Int_ctx 0 4,
        Destroy True Int_ctx 0 3] init_sys)))) = Returned 1"
proof -
  let ?pre = "[Construct False Int_ctx (0::nat) 1 (1::int)]"
  let ?evs = "[Construct True Int_ctx (0::nat) 4 (15::int), Destroy True Int_ctx 0 4]"
  let ?w = "the (run int_ctx_data ?pre (init_sys :: (ctx, nat, int) sys))"
  let ?w1 = "the (step int_ctx_data (Construct True Int_ctx 0 3 10) ?w)"
  let ?w2 = "the (run int_ctx_data ?evs ?w1)"
  let ?w3 = "the (step int_ctx_data (Destroy True Int_ctx 0 3) ?w2)"
  have r0: "run int_ctx_data ?pre init_sys = Some ?w" by (simp add: exec_defs)
  have c: "step int_ctx_data (Construct True Int_ctx 0 3 10) ?w = Some ?w1" by (simp add: exec_defs)
  have mk: "int_ctx_data Int_ctx 10 = (Inr 10 :: string + int)" by (simp add: int_ctx_data_def)
  have r: "run int_ctx_data ?evs ?w1 = Some ?w2" by (simp add: exec_defs)
  have fr: "\<forall>b\<in>set (destroyed_addrs ?evs). objs (st ?w1) b = None" by (simp add: exec_defs)
  have lv: "live ?w2 = live ?w1" by (simp add: exec_defs)
  have ds: "step int_ctx_data (Destroy True Int_ctx 0 3) ?w2 = Some ?w3" by (simp add: exec_defs)
  note th = get_top_after_install_and_after_scope[where mk = int_ctx_data and T = Int_ctx
      and xs = 10 and d = 10 and dbg = True, OF r0 c mk]
  from th have a: "get_top True 0 Int_ctx (st ?w1) = Returned 3
      \<and> payload (st ?w1) (get_top True 0 Int_ctx (st ?w1)) = Returned 10" by blast
  from th r fr lv ds
  have b: "payload (st ?w3) (get_top True 0 Int_ctx (st ?w3)) = payload (st ?w) (get_top True 0 Int_ctx (st ?w))"
    by blast
  have e: "payload (st ?w) (get_top True 0 Int_ctx (st ?w)) = Returned 1"
    by (simp add: exec_defs get_top_ptr payload_def)
  have all: "run int_ctx_data [Construct False Int_ctx (0::nat) 1 1, Construct True Int_ctx 0 3 10,
        Construct True Int_ctx 0 4 15, Destroy True Int_ctx 0 4, Destroy True Int_ctx 0 3]
        (init_sys :: (ctx, nat, int) sys) = Some ?w3"
    by (simp add: exec_defs)
  have "payload (st ?w3) (get_top True 0 Int_ctx (st ?w3)) = Returned 1" using b e by simp
  with a r0 c mk all show ?thesis by (simp add: exec_defs get_top_ptr payload_def)
qed

text \<open>
  The claim C6 as written also covers a global guard installed while a local guard is
  active: on thread 0, after \<open>local_guard lg(10)\<close> and then \<open>global_guard gg(5)\<close>,
  \<open>get_top\<close> still refers to the local guard and reads 10, not the 5 of the guard
  installed last.
\<close>

theorem get_top_after_global_install_counterexample:
  "run int_ctx_data [Construct True Int_ctx (0::nat) 1 10, Construct False Int_ctx 0 2 5] init_sys \<noteq> None
   \<and> objs (st (the (run int_ctx_data
          [Construct True Int_ctx (0::nat) 1 10, Construct False Int_ctx 0 2 5] init_sys))) 2
       = Some \<lparr> g_data = 5, g_prev = None \<rparr>
   \<and> get_top True 0 Int_ctx (st (the (run int_ctx_data
          [Construct True Int_ctx (0::nat) 1 10, Construct False Int_ctx 0 2 5] init_sys)))
       = Returned 1
   \<and> payload (st (the (run int_ctx_data
          [Construct True Int_ctx (0::nat) 1 10, Construct False Int_ctx 0 2 5] init_sys)))
        (get_top True 0 Int_ctx (st (the (run int_ctx_data
          [Construct True Int_ctx (0::nat) 1 10, Construct False Int_ctx 0 2 5] init_sys))))
       = Returned 10
   \<and> payload (st (the (run int_ctx_data
          [Construct True Int_ctx (0::nat) 1 10, Construct False Int_ctx 0 2 5] init_sys)))
        (get_top True 0 Int_ctx (st (the (run int_ctx_data
          [Construct True Int_ctx (0::nat) 1 10, Construct False Int_ctx 0 2 5] init_sys))))
       \<noteq> Returned 5"
  by (simp add: exec_defs get_top_ptr payload_def)

text \<open>
  C7: installing a local guard does not modify the global slot. After a local guard of
  type \<open>T\<close> is installed, \<open>global_top_ptr\<close> is as before, \<open>get_global\<close> (on any thread)
  returns the same reference and payload as before the installation, and \<open>get_top\<close> on
  the installing thread returns the local payload; this holds immediately and at every
  later point of the guard's scope at which the scopes nested in it have ended. When the
  local guard is removed, with a global guard active and no other local guard on the
  thread, \<open>get_top\<close> is back at the global payload.
\<close>

theorem local_guard_leaves_global_slot:
  assumes "run mk pre init_sys = Some w"
    and "step mk (Construct True T tid a xs) w = Some w1" and "mk T xs = Inr d"
  shows "global_top_ptr (st w1) = global_top_ptr (st w)
       \<and> get_global dbg tid' T (st w1) = get_global dbg tid' T (st w)
       \<and> payload (st w1) (get_global dbg tid' T (st w1)) = payload (st w) (get_global dbg tid' T (st w))
       \<and> get_top dbg tid T (st w1) = Returned a
       \<and> payload (st w1) (get_top dbg tid T (st w1)) = Returned d
       \<and> (\<forall>evs w2 w3.
            run mk evs w1 = Some w2
            \<and> (\<forall>c\<in>set (destroyed_addrs evs). objs (st w1) c = None)
            \<and> live w2 = live w1
            \<and> step mk (Destroy True T tid a) w2 = Some w3 \<longrightarrow>
              get_global dbg tid' T (st w2) = get_global dbg tid' T (st w)
              \<and> payload (st w2) (get_global dbg tid' T (st w2)) = payload (st w) (get_global dbg tid' T (st w))
              \<and> get_top dbg tid T (st w2) = Returned a
              \<and> payload (st w2) (get_top dbg tid T (st w2)) = Returned d
              \<and> get_global dbg tid' T (st w3) = get_global dbg tid' T (st w)
              \<and> (live w (LocalSlot tid T) = [] \<and> live w (GlobalSlot T) \<noteq> [] \<longrightarrow>
                   get_top dbg tid T (st w3) = get_global dbg tid T (st w)
                   \<and> payload (st w3) (get_top dbg tid T (st w3)) = payload (st w) (get_global dbg tid T (st w))))"
proof -
  have w: "wf w" using assms(1) by (rule reachable_wf)
  note co = construct_step_ok[OF assms(2,3)]
  have w1: "wf w1" using w assms(2) by (rule wf_step)
  have kg: "GlobalSlot T \<noteq> slot_of (event_local (Construct True T tid a xs))
      (event_type (Construct True T tid a xs)) (event_thread (Construct True T tid a xs))"
    by (simp add: slot_of_def)
  have s1: "st w1 = set_ptr_ref True T tid (Some a)
              ((st w)\<lparr> objs := (objs (st w))(a := Some \<lparr> g_data = d, g_prev = ptr_ref True T tid (st w) \<rparr>) \<rparr>)"
    using assms(3) by (simp add: co(3) guard_ctor_def Let_def)
  have G1: "global_top_ptr (st w1) = global_top_ptr (st w)"
    by (simp add: s1 set_ptr_ref_def)
  have L1: "local_top_ptr (st w1) tid T = Some a"
    by (simp add: s1 set_ptr_ref_def)
  have oa: "objs (st w1) a = Some \<lparr> g_data = d, g_prev = ptr_ref True T tid (st w) \<rparr>"
    by (rule co(2))
  have gg1: "get_global dbg tid' T (st w1) = get_global dbg tid' T (st w)"
    using w assms(2) kg by (rule step_other_global(1))
  have pg1: "payload (st w1) (get_global dbg tid' T (st w1)) = payload (st w) (get_global dbg tid' T (st w))"
    using w assms(2) kg by (rule step_other_global(2))
  have gt1: "get_top dbg tid T (st w1) = Returned a" using L1 by (simp add: get_top_ptr)
  have pt1: "payload (st w1) (get_top dbg tid T (st w1)) = Returned d"
    by (simp add: gt1 payload_def oa)
  have second: "get_global dbg tid' T (st w2) = get_global dbg tid' T (st w)
              \<and> payload (st w2) (get_global dbg tid' T (st w2)) = payload (st w) (get_global dbg tid' T (st w))
              \<and> get_top dbg tid T (st w2) = Returned a
              \<and> payload (st w2) (get_top dbg tid T (st w2)) = Returned d
              \<and> get_global dbg tid' T (st w3) = get_global dbg tid' T (st w)
              \<and> (live w (LocalSlot tid T) = [] \<and> live w (GlobalSlot T) \<noteq> [] \<longrightarrow>
                   get_top dbg tid T (st w3) = get_global dbg tid T (st w)
                   \<and> payload (st w3) (get_top dbg tid T (st w3)) = payload (st w) (get_global dbg tid T (st w)))"
    if sc: "run mk evs w1 = Some w2
            \<and> (\<forall>c\<in>set (destroyed_addrs evs). objs (st w1) c = None)
            \<and> live w2 = live w1
            \<and> step mk (Destroy True T tid a) w2 = Some w3" for evs w2 w3
  proof -
    from sc have r: "run mk evs w1 = Some w2"
      and fr: "\<forall>c\<in>set (destroyed_addrs evs). objs (st w1) c = None"
      and lv: "live w2 = live w1"
      and ds: "step mk (Destroy True T tid a) w2 = Some w3"
      by simp_all
    have sl2: "\<And>k. slot_ptr (st w2) k = slot_ptr (st w1) k" using w1 r lv by (rule scope_slots)
    have kept: "\<And>x g. objs (st w1) x = Some g \<Longrightarrow> objs (st w2) x = Some g"
    proof -
      fix x g assume x: "objs (st w1) x = Some g"
      then have "x \<notin> set (destroyed_addrs evs)" using fr by auto
      with r x show "objs (st w2) x = Some g" by (rule run_objs_kept)
    qed
    have gg2: "get_global dbg tid' T (st w2) = get_global dbg tid' T (st w1)"
      using sl2 by (rule same_slots_same_refs(2))
    have "\<And>x. get_global dbg tid' T (st w1) = Returned x \<Longrightarrow> \<exists>k. slot_ptr (st w1) k = Some x"
      using global_ref_slot[of dbg tid' T "st w1"] by blast
    with w1 have "payload (st w2) (get_global dbg tid' T (st w1)) = payload (st w1) (get_global dbg tid' T (st w1))"
      using kept by (rule payload_kept)
    then have pg2: "payload (st w2) (get_global dbg tid' T (st w2)) = payload (st w) (get_global dbg tid' T (st w))"
      by (simp add: gg2 pg1)
    have L2: "local_top_ptr (st w2) tid T = Some a" using sl2[of "LocalSlot tid T"] L1 by simp
    have gt2: "get_top dbg tid T (st w2) = Returned a" using L2 by (simp add: get_top_ptr)
    have pt2: "payload (st w2) (get_top dbg tid T (st w2)) = Returned d"
      using kept[OF oa] by (simp add: gt2 payload_def)
    note rt = scope_round_trip[OF w assms(2,3) r fr lv ds]
    have gg3: "get_global dbg tid' T (st w3) = get_global dbg tid' T (st w)"
      using rt(1) by (rule same_slots_same_refs(2))
    have bk: "get_top dbg tid T (st w3) = get_global dbg tid T (st w)
                   \<and> payload (st w3) (get_top dbg tid T (st w3)) = payload (st w) (get_global dbg tid T (st w))"
      if sc2: "live w (LocalSlot tid T) = [] \<and> live w (GlobalSlot T) \<noteq> []"
    proof -
      from sc2 obtain b bs where b: "live w (GlobalSlot T) = b # bs"
        by (cases "live w (GlobalSlot T)") auto
      have lp: "local_top_ptr (st w) tid T = None" using wf_local_ptr[OF w, of tid T] sc2 by simp
      have gp: "global_top_ptr (st w) T = Some b" using wf_global_ptr[OF w, of T] b by simp
      from wf_head_alive[OF w b] obtain g where g: "objs (st w) b = Some g" ..
      have G3: "global_top_ptr (st w3) T = Some b" using rt(1)[of "GlobalSlot T"] gp by simp
      have L3: "local_top_ptr (st w3) tid T = None" using rt(1)[of "LocalSlot tid T"] lp by simp
      have ob3: "objs (st w3) b = Some g" using g by (rule rt(2))
      show ?thesis
        by (simp add: get_global_ptr get_top_ptr G3 L3 gp payload_def ob3 g)
    qed
    have gg20: "get_global dbg tid' T (st w2) = get_global dbg tid' T (st w)"
      using gg2 gg1 by simp
    from gg20 pg2 gt2 pt2 gg3 bk show ?thesis by blast
  qed
  from G1 gg1 pg1 gt1 pt1 second show ?thesis by blast
qed

theorem local_guard_leaves_global_slot_witness:
  "run int_ctx_data [Construct False Int_ctx (0::nat) 1 1, Construct False Int_ctx 0 2 5] init_sys \<noteq> None
   \<and> live (the (run int_ctx_data [Construct False Int_ctx (0::nat) 1 1,
        Construct False Int_ctx 0 2 5] init_sys)) (LocalSlot 0 Int_ctx) = []
   \<and> live (the (run int_ctx_data [Construct False Int_ctx (0::nat) 1 1,
        Construct False Int_ctx 0 2 5] init_sys)) (GlobalSlot Int_ctx) = [2, 1]
   \<and> step int_ctx_data (Construct True Int_ctx 0 3 10)
        (the (run int_ctx_data [Construct False Int_ctx (0::nat) 1 1,
        Construct False Int_ctx 0 2 5] init_sys)) \<noteq> None
   \<and> int_ctx_data Int_ctx 10 = Inr 10
   \<and> payload (st (the (step int_ctx_data (Construct True Int_ctx 0 3 10)
        (the (run int_ctx_data [Construct False Int_ctx (0::nat) 1 1,
        Construct False Int_ctx 0 2 5] init_sys)))))
        (get_global True 0 Int_ctx (st (the (step int_ctx_data (Construct True Int_ctx 0 3 10)
        (the (run int_ctx_data [Construct False Int_ctx (0::nat) 1 1,
        Construct False Int_ctx 0 2 5] init_sys)))))) = Returned 5
   \<and> payload (st (the (step int_ctx_data (Construct True Int_ctx 0 3 10)
        (the (run int_ctx_data [Construct False Int_ctx (0::nat) 1 1,
        Construct False Int_ctx 0 2 5] init_sys)))))
        (get_top True 0 Int_ctx (st (the (step int_ctx_data (Construct True Int_ctx 0 3 10)
        (the (run int_ctx_data [Construct False Int_ctx (0::nat) 1 1,
        Construct False Int_ctx 0 2 5] init_sys)))))) = Returned 10
   \<and> run int_ctx_data [Construct False Int_ctx (0::nat) 1 1, Construct False Int_ctx 0 2 5,
        Construct True Int_ctx 0 3 10, Construct True Int_ctx 0 4 15, Destroy True Int_ctx 0 4,
        Destroy True Int_ctx 0 3] init_sys \<noteq> None
   \<and> payload (st (the (run int_ctx_data [Construct False Int_ctx (0::nat) 1 1, Construct False Int_ctx 0 2 5,
        Construct True Int_ctx 0 3 10, Construct True Int_ctx 0 4 15, Destroy True Int_ctx 0 4,
        Destroy True Int_ctx 0 3] init_sys)))
        (get_top True 0 Int_ctx (st (the (run int_ctx_data [Construct False Int_ctx (0::nat) 1 1,
        Construct False Int_ctx 0 2 5, Construct True Int_ctx 0 3 10, Construct True Int_ctx 0 4 15,
        Destroy True Int_ctx 0 4, Destroy True Int_ctx 0 3] init_sys)))) = Returned 5"
proof -
  let ?pre = "[Construct False Int_ctx (0::nat) 1 (1::int), Construct False Int_ctx 0 2 5]"
  let ?evs = "[Construct True Int_ctx (0::nat) 4 (15::int), Destroy True Int_ctx 0 4]"
  let ?w = "the (run int_ctx_data ?pre (init_sys :: (ctx, nat, int) sys))"
  let ?w1 = "the (step int_ctx_data (Construct True Int_ctx 0 3 10) ?w)"
  let ?w2 = "the (run int_ctx_data ?evs ?w1)"
  let ?w3 = "the (step int_ctx_data (Destroy True Int_ctx 0 3) ?w2)"
  have r0: "run int_ctx_data ?pre init_sys = Some ?w" by (simp add: exec_defs)
  have ll: "live ?w (LocalSlot 0 Int_ctx) = []" by (simp add: exec_defs)
  have lg: "live ?w (GlobalSlot Int_ctx) = 2 # [1]" by (simp add: exec_defs)
  have c: "step int_ctx_data (Construct True Int_ctx 0 3 10) ?w = Some ?w1" by (simp add: exec_defs)
  have mk: "int_ctx_data Int_ctx 10 = (Inr 10 :: string + int)" by (simp add: int_ctx_data_def)
  have r: "run int_ctx_data ?evs ?w1 = Some ?w2" by (simp add: exec_defs)
  have fr: "\<forall>b\<in>set (destroyed_addrs ?evs). objs (st ?w1) b = None" by (simp add: exec_defs)
  have lv: "live ?w2 = live ?w1" by (simp add: exec_defs)
  have ds: "step int_ctx_data (Destroy True Int_ctx 0 3) ?w2 = Some ?w3" by (simp add: exec_defs)
  have lg': "live ?w (GlobalSlot Int_ctx) \<noteq> []" using lg by simp
  note th = local_guard_leaves_global_slot[where mk = int_ctx_data and T = Int_ctx
      and xs = 10 and d = 10 and dbg = True and tid' = 0, OF r0 c mk]
  from th have a: "payload (st ?w1) (get_global True 0 Int_ctx (st ?w1))
        = payload (st ?w) (get_global True 0 Int_ctx (st ?w))
      \<and> payload (st ?w1) (get_top True 0 Int_ctx (st ?w1)) = Returned 10" by blast
  from th r fr lv ds ll lg'
  have b: "payload (st ?w3) (get_top True 0 Int_ctx (st ?w3))
        = payload (st ?w) (get_global True 0 Int_ctx (st ?w))"
    by blast
  from a b r0 c mk show ?thesis by (simp add: exec_defs get_top_ptr get_global_ptr payload_def)
qed

text \<open>
  C8: type independence. For two distinct payload types \<open>T\<close> and \<open>U\<close>, constructing or
  destroying a guard of type \<open>T\<close> (local or global, on any thread, from any state)
  leaves both slots of \<open>U\<close> as they are, and every accessor of \<open>U\<close> returns the same
  reference before and after; in a well-nested execution the live guards of \<open>U\<close> and the
  payloads its accessors read are the same too.
\<close>

theorem type_independence:
  assumes "T \<noteq> U"
  shows "global_top_ptr (snd (guard_ctor mk TLocal T tid a xs s)) U = global_top_ptr s U
       \<and> local_top_ptr (snd (guard_ctor mk TLocal T tid a xs s)) tid' U = local_top_ptr s tid' U
       \<and> get_local dbg tid' U (snd (guard_ctor mk TLocal T tid a xs s)) = get_local dbg tid' U s
       \<and> get_global dbg tid' U (snd (guard_ctor mk TLocal T tid a xs s)) = get_global dbg tid' U s
       \<and> get_top dbg tid' U (snd (guard_ctor mk TLocal T tid a xs s)) = get_top dbg tid' U s
       \<and> (\<forall>s'. guard_dtor TLocal T tid a s = Some s' \<longrightarrow>
             global_top_ptr s' U = global_top_ptr s U
             \<and> local_top_ptr s' tid' U = local_top_ptr s tid' U
             \<and> get_local dbg tid' U s' = get_local dbg tid' U s
             \<and> get_global dbg tid' U s' = get_global dbg tid' U s
             \<and> get_top dbg tid' U s' = get_top dbg tid' U s)
       \<and> (\<forall>pre w ev w'. run mk pre init_sys = Some w \<and> step mk ev w = Some w' \<and> event_type ev = T \<longrightarrow>
             live w' (GlobalSlot U) = live w (GlobalSlot U)
             \<and> live w' (LocalSlot tid' U) = live w (LocalSlot tid' U)
             \<and> payload (st w') (get_local dbg tid' U (st w')) = payload (st w) (get_local dbg tid' U (st w))
             \<and> payload (st w') (get_global dbg tid' U (st w')) = payload (st w) (get_global dbg tid' U (st w))
             \<and> payload (st w') (get_top dbg tid' U (st w')) = payload (st w) (get_top dbg tid' U (st w)))"
proof -
  have kg: "GlobalSlot U \<noteq> slot_of TLocal T tid" and kl: "LocalSlot tid' U \<noteq> slot_of TLocal T tid"
    using assms by (simp_all add: slot_of_def)
  let ?c = "snd (guard_ctor mk TLocal T tid a xs s)"
  have cg: "global_top_ptr ?c U = global_top_ptr s U"
    using ctor_other_slot[OF kg, of mk a xs s] by simp
  have cl: "local_top_ptr ?c tid' U = local_top_ptr s tid' U"
    using ctor_other_slot[OF kl, of mk a xs s] by simp
  have ctor: "global_top_ptr ?c U = global_top_ptr s U
       \<and> local_top_ptr ?c tid' U = local_top_ptr s tid' U
       \<and> get_local dbg tid' U ?c = get_local dbg tid' U s
       \<and> get_global dbg tid' U ?c = get_global dbg tid' U s
       \<and> get_top dbg tid' U ?c = get_top dbg tid' U s"
    using same_ptrs_same_refs[OF cl cg, of dbg] by (simp add: cg cl)
  have dtor: "global_top_ptr s' U = global_top_ptr s U
             \<and> local_top_ptr s' tid' U = local_top_ptr s tid' U
             \<and> get_local dbg tid' U s' = get_local dbg tid' U s
             \<and> get_global dbg tid' U s' = get_global dbg tid' U s
             \<and> get_top dbg tid' U s' = get_top dbg tid' U s"
    if d: "guard_dtor TLocal T tid a s = Some s'" for s'
  proof -
    have dg: "global_top_ptr s' U = global_top_ptr s U"
      using dtor_other_slot[OF d kg] by simp
    have dl: "local_top_ptr s' tid' U = local_top_ptr s tid' U"
      using dtor_other_slot[OF d kl] by simp
    show ?thesis using same_ptrs_same_refs[OF dl dg, of dbg] by (simp add: dg dl)
  qed
  have exec: "live w' (GlobalSlot U) = live w (GlobalSlot U)
             \<and> live w' (LocalSlot tid' U) = live w (LocalSlot tid' U)
             \<and> payload (st w') (get_local dbg tid' U (st w')) = payload (st w) (get_local dbg tid' U (st w))
             \<and> payload (st w') (get_global dbg tid' U (st w')) = payload (st w) (get_global dbg tid' U (st w))
             \<and> payload (st w') (get_top dbg tid' U (st w')) = payload (st w) (get_top dbg tid' U (st w))"
    if h: "run mk pre init_sys = Some w \<and> step mk ev w = Some w' \<and> event_type ev = T" for pre w ev w'
  proof -
    from h have w: "wf w" and s: "step mk ev w = Some w'" and t: "event_type ev = T"
      by (auto dest: reachable_wf)
    have g: "GlobalSlot U \<noteq> slot_of (event_local ev) (event_type ev) (event_thread ev)"
      and l: "LocalSlot tid' U \<noteq> slot_of (event_local ev) (event_type ev) (event_thread ev)"
      using assms t by (simp_all add: slot_of_def)
    show ?thesis
      using step_other_slot(2)[OF w s g] step_other_slot(2)[OF w s l]
        step_other_local(2)[OF w s l] step_other_global(2)[OF w s g] step_other_top(2)[OF w s l g]
      by simp
  qed
  from ctor dtor exec show ?thesis by blast
qed

theorem type_independence_witness:
  "Int_ctx \<noteq> Pmr_ctx
   \<and> run int_ctx_data [Construct False Pmr_ctx (0::nat) 1 100, Construct True Pmr_ctx 0 2 200] init_sys \<noteq> None
   \<and> step int_ctx_data (Construct True Int_ctx 0 3 10)
        (the (run int_ctx_data [Construct False Pmr_ctx (0::nat) 1 100,
           Construct True Pmr_ctx 0 2 200] init_sys)) \<noteq> None
   \<and> event_type (Construct True Int_ctx (0::nat) 3 (10::int)) = Int_ctx
   \<and> payload (st (the (step int_ctx_data (Construct True Int_ctx 0 3 10)
        (the (run int_ctx_data [Construct False Pmr_ctx (0::nat) 1 100,
           Construct True Pmr_ctx 0 2 200] init_sys)))))
        (get_top True 0 Pmr_ctx (st (the (step int_ctx_data (Construct True Int_ctx 0 3 10)
        (the (run int_ctx_data [Construct False Pmr_ctx (0::nat) 1 100,
           Construct True Pmr_ctx 0 2 200] init_sys)))))) = Returned 200
   \<and> payload (st (the (step int_ctx_data (Construct True Int_ctx 0 3 10)
        (the (run int_ctx_data [Construct False Pmr_ctx (0::nat) 1 100,
           Construct True Pmr_ctx 0 2 200] init_sys)))))
        (get_global True 0 Pmr_ctx (st (the (step int_ctx_data (Construct True Int_ctx 0 3 10)
        (the (run int_ctx_data [Construct False Pmr_ctx (0::nat) 1 100,
           Construct True Pmr_ctx 0 2 200] init_sys)))))) = Returned 100"
proof -
  let ?pre = "[Construct False Pmr_ctx (0::nat) 1 (100::int), Construct True Pmr_ctx 0 2 200]"
  let ?w = "the (run int_ctx_data ?pre (init_sys :: (ctx, nat, int) sys))"
  let ?ev = "Construct True Int_ctx (0::nat) 3 (10::int)"
  let ?w' = "the (step int_ctx_data ?ev ?w)"
  have ne: "Int_ctx \<noteq> Pmr_ctx" by simp
  have r0: "run int_ctx_data ?pre init_sys = Some ?w" by (simp add: exec_defs)
  have c: "step int_ctx_data ?ev ?w = Some ?w'" by (simp add: exec_defs)
  have t: "event_type ?ev = Int_ctx" by simp
  note th = type_independence[OF ne, where mk = int_ctx_data and dbg = True and tid' = 0]
  from th r0 c t
  have a: "payload (st ?w') (get_top True 0 Pmr_ctx (st ?w')) = payload (st ?w) (get_top True 0 Pmr_ctx (st ?w))
         \<and> payload (st ?w') (get_global True 0 Pmr_ctx (st ?w')) = payload (st ?w) (get_global True 0 Pmr_ctx (st ?w))"
    by blast
  from a r0 c show ?thesis by (simp add: exec_defs get_top_ptr get_global_ptr payload_def)
qed

text \<open>
  C9: thread isolation. \<open>local_top_ptr<T>\<close> is one variable per thread. For two
  distinct threads \<open>tidA\<close> and \<open>tidB\<close>: constructing or destroying a local guard on
  \<open>tidA\<close> (of any type, from any state) leaves every local slot of \<open>tidB\<close> as it is, and
  \<open>get_local\<close> and \<open>get_top\<close> on \<open>tidB\<close> return the same reference, and in a
  well-nested execution read the same payload, before and after. Local guards on the
  two threads do not interfere: two local events of the two threads, on different guard
  objects, give the same result in either order.
\<close>

theorem thread_isolation:
  assumes "tidA \<noteq> tidB"
  shows "local_top_ptr (snd (guard_ctor mk True T tidA a xs s)) tidB = local_top_ptr s tidB
       \<and> get_local dbg tidB U (snd (guard_ctor mk True T tidA a xs s)) = get_local dbg tidB U s
       \<and> get_top dbg tidB U (snd (guard_ctor mk True T tidA a xs s)) = get_top dbg tidB U s
       \<and> (\<forall>s'. guard_dtor True T tidA a s = Some s' \<longrightarrow>
             local_top_ptr s' tidB = local_top_ptr s tidB
             \<and> get_local dbg tidB U s' = get_local dbg tidB U s
             \<and> get_top dbg tidB U s' = get_top dbg tidB U s)
       \<and> (\<forall>pre w ev w'. run mk pre init_sys = Some w \<and> step mk ev w = Some w'
               \<and> event_local ev \<and> event_thread ev = tidA \<longrightarrow>
             live w' (LocalSlot tidB U) = live w (LocalSlot tidB U)
             \<and> payload (st w') (get_local dbg tidB U (st w')) = payload (st w) (get_local dbg tidB U (st w))
             \<and> payload (st w') (get_top dbg tidB U (st w')) = payload (st w) (get_top dbg tidB U (st w)))
       \<and> (\<forall>w e1 e2. event_local e1 \<and> event_local e2 \<and> event_thread e1 = tidA
               \<and> event_thread e2 = tidB \<and> event_addr e1 \<noteq> event_addr e2 \<longrightarrow>
             run mk [e1, e2] w = run mk [e2, e1] w)"
proof -
  let ?c = "snd (guard_ctor mk True T tidA a xs s)"
  have cl: "local_top_ptr ?c tidB = local_top_ptr s tidB"
    using assms by (simp add: guard_ctor_def Let_def set_ptr_ref_def split: sum.splits)
  have cg: "global_top_ptr ?c = global_top_ptr s"
    by (simp add: guard_ctor_def Let_def set_ptr_ref_def split: sum.splits)
  have ctor: "local_top_ptr ?c tidB = local_top_ptr s tidB
       \<and> get_local dbg tidB U ?c = get_local dbg tidB U s
       \<and> get_top dbg tidB U ?c = get_top dbg tidB U s"
    using same_ptrs_same_refs[of ?c tidB U s dbg] by (simp add: cl cg)
  have dtor: "local_top_ptr s' tidB = local_top_ptr s tidB
             \<and> get_local dbg tidB U s' = get_local dbg tidB U s
             \<and> get_top dbg tidB U s' = get_top dbg tidB U s"
    if d: "guard_dtor True T tidA a s = Some s'" for s'
  proof -
    have dl: "local_top_ptr s' tidB = local_top_ptr s tidB"
      using d assms by (auto simp: guard_dtor_def set_ptr_ref_def split: option.splits)
    have dg: "global_top_ptr s' = global_top_ptr s"
      using d by (auto simp: guard_dtor_def set_ptr_ref_def split: option.splits)
    show ?thesis using same_ptrs_same_refs[of s' tidB U s dbg] by (simp add: dl dg)
  qed
  have exec: "live w' (LocalSlot tidB U) = live w (LocalSlot tidB U)
             \<and> payload (st w') (get_local dbg tidB U (st w')) = payload (st w) (get_local dbg tidB U (st w))
             \<and> payload (st w') (get_top dbg tidB U (st w')) = payload (st w) (get_top dbg tidB U (st w))"
    if h: "run mk pre init_sys = Some w \<and> step mk ev w = Some w'
               \<and> event_local ev \<and> event_thread ev = tidA" for pre w ev w'
  proof -
    from h have w: "wf w" and s: "step mk ev w = Some w'" and l: "event_local ev"
      and t: "event_thread ev = tidA"
      by (auto dest: reachable_wf)
    have kl: "LocalSlot tidB U \<noteq> slot_of (event_local ev) (event_type ev) (event_thread ev)"
      and kg: "GlobalSlot U \<noteq> slot_of (event_local ev) (event_type ev) (event_thread ev)"
      using assms l t by (simp_all add: slot_of_def)
    show ?thesis
      using step_other_slot(2)[OF w s kl] step_other_local(2)[OF w s kl] step_other_top(2)[OF w s kl kg]
      by simp
  qed
  have comm: "run mk [e1, e2] w = run mk [e2, e1] w"
    if h: "event_local e1 \<and> event_local e2 \<and> event_thread e1 = tidA
               \<and> event_thread e2 = tidB \<and> event_addr e1 \<noteq> event_addr e2" for w e1 e2
    using h assms by (intro local_events_commute) auto
  from ctor dtor exec comm show ?thesis by blast
qed

theorem thread_isolation_witness:
  "(0::nat) \<noteq> 1
   \<and> run int_ctx_data [Construct True Int_ctx (1::nat) 2 20] init_sys \<noteq> None
   \<and> step int_ctx_data (Construct True Int_ctx 0 3 10)
        (the (run int_ctx_data [Construct True Int_ctx (1::nat) 2 20] init_sys)) \<noteq> None
   \<and> payload (st (the (step int_ctx_data (Construct True Int_ctx 0 3 10)
        (the (run int_ctx_data [Construct True Int_ctx (1::nat) 2 20] init_sys)))))
        (get_top True 1 Int_ctx (st (the (step int_ctx_data (Construct True Int_ctx 0 3 10)
        (the (run int_ctx_data [Construct True Int_ctx (1::nat) 2 20] init_sys)))))) = Returned 20
   \<and> get_local True 1 Pmr_ctx (st (the (step int_ctx_data (Construct True Int_ctx 0 3 10)
        (the (run int_ctx_data [Construct True Int_ctx (1::nat) 2 20] init_sys)))))
        = Aborted ''tried using inactive local context''
   \<and> run int_ctx_data [Construct True Int_ctx (0::nat) 3 10, Construct True Int_ctx 1 2 20] init_sys
       = run int_ctx_data [Construct True Int_ctx (1::nat) 2 20, Construct True Int_ctx 0 3 10] init_sys"
proof -
  let ?pre = "[Construct True Int_ctx (1::nat) 2 (20::int)]"
  let ?w = "the (run int_ctx_data ?pre (init_sys :: (ctx, nat, int) sys))"
  let ?ev = "Construct True Int_ctx (0::nat) 3 (10::int)"
  let ?w' = "the (step int_ctx_data ?ev ?w)"
  have ne: "(0::nat) \<noteq> 1" by simp
  have r0: "run int_ctx_data ?pre init_sys = Some ?w" by (simp add: exec_defs)
  have c: "step int_ctx_data ?ev ?w = Some ?w'" by (simp add: exec_defs)
  have l: "event_local ?ev" and t: "event_thread ?ev = 0" by simp_all
  have l2: "event_local (Construct True Int_ctx (1::nat) 2 (20::int))"
    and t2: "event_thread (Construct True Int_ctx (1::nat) 2 (20::int)) = 1"
    and ad: "event_addr ?ev \<noteq> event_addr (Construct True Int_ctx (1::nat) 2 (20::int))"
    by simp_all
  note th = thread_isolation[OF ne, where mk = int_ctx_data and dbg = True]
  from th[where U = Int_ctx] r0 c l t
  have a: "payload (st ?w') (get_top True 1 Int_ctx (st ?w')) = payload (st ?w) (get_top True 1 Int_ctx (st ?w))"
    by blast
  from th[where U = Pmr_ctx] r0 c l t
  have b: "payload (st ?w') (get_local True 1 Pmr_ctx (st ?w')) = payload (st ?w) (get_local True 1 Pmr_ctx (st ?w))"
    by blast
  from th[where U = Int_ctx] l l2 t t2 ad
  have cm: "run int_ctx_data [?ev, Construct True Int_ctx 1 2 20] (init_sys :: (ctx, nat, int) sys)
       = run int_ctx_data [Construct True Int_ctx 1 2 20, ?ev] init_sys"
    by blast
  have v1: "payload (st ?w) (get_top True 1 Int_ctx (st ?w)) = Returned 20"
    by (simp add: exec_defs get_top_ptr payload_def)
  have v2: "get_local True 1 Pmr_ctx (st ?w') = Aborted ''tried using inactive local context''"
    by (simp add: exec_defs get_local_ptr)
  have n1: "run int_ctx_data ?pre (init_sys :: (ctx, nat, int) sys) \<noteq> None"
    by (simp add: exec_defs)
  have n2: "step int_ctx_data ?ev ?w \<noteq> None" by (simp add: exec_defs)
  have p: "payload (st ?w') (get_top True 1 Int_ctx (st ?w')) = Returned 20"
    using a v1 by (simp only:)
  from ne n1 n2 p v2 cm show ?thesis by (intro conjI) assumption+
qed

text \<open>
  C10: while a local guard of type \<open>T\<close> is active on the calling thread, \<open>get_top\<close>
  does not depend on the global slot: with the global pointers replaced by any others
  \<open>G\<close> (all of them null included, where the checked build raises no diagnostic),
  \<open>get_top\<close> returns the same reference, the innermost local guard's, and reads the same
  payload.
\<close>

theorem get_top_ignores_global_under_local:
  assumes "run mk pre init_sys = Some w" and "live w (LocalSlot tid T) = a # as"
  shows "get_top dbg tid T ((st w)\<lparr> global_top_ptr := G \<rparr>) = Returned a
       \<and> get_top dbg tid T ((st w)\<lparr> global_top_ptr := G \<rparr>) = get_top dbg tid T (st w)
       \<and> payload ((st w)\<lparr> global_top_ptr := G \<rparr>) (get_top dbg tid T ((st w)\<lparr> global_top_ptr := G \<rparr>))
           = payload (st w) (get_top dbg tid T (st w))
       \<and> (\<exists>g. objs (st w) a = Some g
              \<and> payload ((st w)\<lparr> global_top_ptr := G \<rparr>)
                   (get_top dbg tid T ((st w)\<lparr> global_top_ptr := G \<rparr>)) = Returned (g_data g))
       \<and> get_top True tid T ((st w)\<lparr> global_top_ptr := (\<lambda>U. None) \<rparr>) = Returned a"
proof -
  have w: "wf w" using assms(1) by (rule reachable_wf)
  have lp: "local_top_ptr (st w) tid T = Some a"
    using wf_local_ptr[OF w, of tid T] assms(2) by simp
  from wf_head_alive[OF w assms(2)] obtain g where g: "objs (st w) a = Some g" ..
  show ?thesis using lp g by (simp add: get_top_ptr payload_def)
qed

theorem get_top_ignores_global_under_local_witness:
  "run int_ctx_data [Construct False Int_ctx (0::nat) 1 1, Construct True Int_ctx 0 3 10] init_sys \<noteq> None
   \<and> live (the (run int_ctx_data [Construct False Int_ctx (0::nat) 1 1,
        Construct True Int_ctx 0 3 10] init_sys)) (LocalSlot 0 Int_ctx) = [3]
   \<and> get_top True 0 Int_ctx (st (the (run int_ctx_data [Construct False Int_ctx (0::nat) 1 1,
        Construct True Int_ctx 0 3 10] init_sys))) = Returned 3
   \<and> get_top True 0 Int_ctx ((st (the (run int_ctx_data [Construct False Int_ctx (0::nat) 1 1,
        Construct True Int_ctx 0 3 10] init_sys)))\<lparr> global_top_ptr := (\<lambda>U. None) \<rparr>) = Returned 3
   \<and> payload ((st (the (run int_ctx_data [Construct False Int_ctx (0::nat) 1 1,
        Construct True Int_ctx 0 3 10] init_sys)))\<lparr> global_top_ptr := (\<lambda>U. None) \<rparr>)
        (get_top True 0 Int_ctx ((st (the (run int_ctx_data [Construct False Int_ctx (0::nat) 1 1,
        Construct True Int_ctx 0 3 10] init_sys)))\<lparr> global_top_ptr := (\<lambda>U. None) \<rparr>)) = Returned 10"
proof -
  let ?pre = "[Construct False Int_ctx (0::nat) 1 (1::int), Construct True Int_ctx 0 3 10]"
  let ?w = "the (run int_ctx_data ?pre (init_sys :: (ctx, nat, int) sys))"
  have r0: "run int_ctx_data ?pre init_sys = Some ?w" by (simp add: exec_defs)
  have l: "live ?w (LocalSlot 0 Int_ctx) = 3 # []" by (simp add: exec_defs)
  note th = get_top_ignores_global_under_local[OF r0 l, where dbg = True and G = "\<lambda>U. None"]
  have n: "run int_ctx_data ?pre (init_sys :: (ctx, nat, int) sys) \<noteq> None" by (simp add: exec_defs)
  have v: "payload (st ?w) (get_top True 0 Int_ctx (st ?w)) = Returned 10"
    by (simp add: exec_defs get_top_ptr payload_def)
  from th have a: "get_top True 0 Int_ctx ((st ?w)\<lparr> global_top_ptr := (\<lambda>U. None) \<rparr>) = Returned 3"
    and b: "get_top True 0 Int_ctx ((st ?w)\<lparr> global_top_ptr := (\<lambda>U. None) \<rparr>) = get_top True 0 Int_ctx (st ?w)"
    and c: "payload ((st ?w)\<lparr> global_top_ptr := (\<lambda>U. None) \<rparr>)
             (get_top True 0 Int_ctx ((st ?w)\<lparr> global_top_ptr := (\<lambda>U. None) \<rparr>))
           = payload (st ?w) (get_top True 0 Int_ctx (st ?w))"
    by blast+
  have a': "get_top True 0 Int_ctx (st ?w) = Returned 3" using a b by (simp only:)
  have c': "payload ((st ?w)\<lparr> global_top_ptr := (\<lambda>U. None) \<rparr>)
             (get_top True 0 Int_ctx ((st ?w)\<lparr> global_top_ptr := (\<lambda>U. None) \<rparr>)) = Returned 10"
    using c v by (simp only:)
  from n l a' a c' show ?thesis by (intro conjI) assumption+
qed

end
